theory Spec2Isabelle
  imports Complex_Main "HOL-Library.Multiset"
begin

section \<open>Numbers\<close>

text \<open>
  The source computes with two kinds of numbers: \<^verbatim>\<open>BigNumber\<close> values of bignumber.js, which
  are decimals of any precision, and JavaScript \<^verbatim>\<open>number\<close> values, which are IEEE 754 doubles.
  A value of either kind is a rational or one of \<^verbatim>\<open>Infinity\<close>, \<^verbatim>\<open>-Infinity\<close> and \<^verbatim>\<open>NaN\<close>; a
  \<^verbatim>\<open>number\<close> is a rational that a double holds. The sign of zero is not part of the model.
\<close>

datatype jsnum = Num rat | PInf | NInf | NaN

definition inf_signed :: "bool \<Rightarrow> jsnum" where
  "inf_signed positive = (if positive then PInf else NInf)"

subsection \<open>bignumber.js\<close>

text \<open>
  \<^verbatim>\<open>plus\<close>, \<^verbatim>\<open>minus\<close> and \<^verbatim>\<open>times\<close> (\<^verbatim>\<open>multipliedBy\<close>) are exact. Division never raises: a
  nonzero value over zero is an infinity and zero over zero is \<^verbatim>\<open>NaN\<close>. \<^verbatim>\<open>dividedBy\<close> (\<^verbatim>\<open>div\<close>)
  rounds the quotient to \<^verbatim>\<open>DECIMAL_PLACES\<close> decimals with \<^verbatim>\<open>ROUNDING_MODE\<close>; the library's
  defaults are 20 places and \<^verbatim>\<open>ROUND_HALF_UP\<close> (to the nearest, a tie away from zero), and
  the source files do not change them. \<^verbatim>\<open>isGreaterThan\<close> is false as soon as one side is
  \<^verbatim>\<open>NaN\<close>.
\<close>

fun bn_negated :: "jsnum \<Rightarrow> jsnum" where
  "bn_negated (Num a) = Num (- a)"
| "bn_negated PInf = NInf"
| "bn_negated NInf = PInf"
| "bn_negated NaN = NaN"

fun bn_plus :: "jsnum \<Rightarrow> jsnum \<Rightarrow> jsnum" where
  "bn_plus NaN _ = NaN"
| "bn_plus _ NaN = NaN"
| "bn_plus PInf NInf = NaN"
| "bn_plus NInf PInf = NaN"
| "bn_plus PInf _ = PInf"
| "bn_plus _ PInf = PInf"
| "bn_plus NInf _ = NInf"
| "bn_plus _ NInf = NInf"
| "bn_plus (Num a) (Num b) = Num (a + b)"

definition bn_minus :: "jsnum \<Rightarrow> jsnum \<Rightarrow> jsnum" where
  "bn_minus a b = bn_plus a (bn_negated b)"

fun bn_times :: "jsnum \<Rightarrow> jsnum \<Rightarrow> jsnum" where
  "bn_times NaN _ = NaN"
| "bn_times _ NaN = NaN"
| "bn_times (Num a) (Num b) = Num (a * b)"
| "bn_times (Num a) PInf = (if a = 0 then NaN else inf_signed (0 < a))"
| "bn_times (Num a) NInf = (if a = 0 then NaN else inf_signed (a < 0))"
| "bn_times PInf (Num b) = (if b = 0 then NaN else inf_signed (0 < b))"
| "bn_times NInf (Num b) = (if b = 0 then NaN else inf_signed (b < 0))"
| "bn_times PInf PInf = PInf"
| "bn_times PInf NInf = NInf"
| "bn_times NInf PInf = NInf"
| "bn_times NInf NInf = PInf"

text \<open>The quotient before any rounding.\<close>

fun quotient :: "jsnum \<Rightarrow> jsnum \<Rightarrow> jsnum" where
  "quotient NaN _ = NaN"
| "quotient _ NaN = NaN"
| "quotient (Num a) (Num b) =
     (if b = 0 then (if a = 0 then NaN else inf_signed (0 < a)) else Num (a / b))"
| "quotient (Num a) PInf = Num 0"
| "quotient (Num a) NInf = Num 0"
| "quotient PInf (Num b) = inf_signed (0 \<le> b)"
| "quotient NInf (Num b) = inf_signed (b < 0)"
| "quotient PInf PInf = NaN"
| "quotient PInf NInf = NaN"
| "quotient NInf PInf = NaN"
| "quotient NInf NInf = NaN"

fun bn_isGreaterThan :: "jsnum \<Rightarrow> jsnum \<Rightarrow> bool" where
  "bn_isGreaterThan NaN _ = False"
| "bn_isGreaterThan _ NaN = False"
| "bn_isGreaterThan (Num a) (Num b) = (b < a)"
| "bn_isGreaterThan PInf PInf = False"
| "bn_isGreaterThan PInf _ = True"
| "bn_isGreaterThan NInf _ = False"
| "bn_isGreaterThan (Num a) NInf = True"
| "bn_isGreaterThan (Num a) PInf = False"

definition round_half_up :: "rat \<Rightarrow> int" where
  "round_half_up q = (if 0 \<le> q then \<lfloor>q + 1 / 2\<rfloor> else - \<lfloor>- q + 1 / 2\<rfloor>)"

definition DECIMAL_PLACES :: nat where
  "DECIMAL_PLACES = 20"

definition bn_round :: "rat \<Rightarrow> rat" where
  "bn_round q = of_int (round_half_up (q * 10 ^ DECIMAL_PLACES)) / 10 ^ DECIMAL_PLACES"

definition bn_dividedBy :: "jsnum \<Rightarrow> jsnum \<Rightarrow> jsnum" where
  "bn_dividedBy a b = (case quotient a b of Num q \<Rightarrow> Num (bn_round q) | r \<Rightarrow> r)"

subsection \<open>Doubles\<close>

text \<open>
  \<open>toDouble q\<close> is the double nearest to the rational \<open>q\<close>, a tie going to the even
  significand: with \<open>2 ^ e \<le> \<bar>q\<bar> < 2 ^ (e + 1)\<close>, and \<open>e\<close> at least \<open>- 1022\<close> (below that the
  doubles are subnormal), the doubles around \<open>q\<close> are the multiples of \<open>2 ^ (e - 52)\<close>. A
  result of \<open>2 ^ 1024\<close> or more is an infinity. \<open>digitCount b x\<close> is the number of digits of
  \<open>x\<close> in base \<open>b\<close>.
\<close>

function digitCount :: "int \<Rightarrow> int \<Rightarrow> int" where
  "digitCount b x = (if 1 < b \<and> 0 < x then digitCount b (x div b) + 1 else 0)"
  by pat_completeness auto
termination
  by (relation "measure (\<lambda>(b, x). nat x)") (auto simp: int_div_less_self)

definition pow2 :: "int \<Rightarrow> rat" where
  "pow2 k = (if 0 \<le> k then 2 ^ nat k else 1 / 2 ^ nat (- k))"

definition pow10 :: "int \<Rightarrow> rat" where
  "pow10 k = (if 0 \<le> k then 10 ^ nat k else 1 / 10 ^ nat (- k))"

definition exponent2 :: "rat \<Rightarrow> int" where
  "exponent2 a =
     (let k = digitCount 2 (fst (quotient_of a)) - digitCount 2 (snd (quotient_of a))
      in if pow2 k \<le> a then k else k - 1)"

definition exponent10 :: "rat \<Rightarrow> int" where
  "exponent10 a =
     (let k = digitCount 10 (fst (quotient_of a)) - digitCount 10 (snd (quotient_of a))
      in if pow10 k \<le> a then k else k - 1)"

definition round_half_even :: "rat \<Rightarrow> int" where
  "round_half_even r =
     (let f = \<lfloor>r\<rfloor>; d = r - of_int f
      in if d < 1 / 2 then f else if 1 / 2 < d then f + 1 else if even f then f else f + 1)"

definition toDouble :: "rat \<Rightarrow> jsnum" where
  "toDouble q =
     (if q = 0 then Num 0
      else let a = \<bar>q\<bar>;
               e = max (exponent2 a) (- 1022);
               u = pow2 (e - 52);
               n = round_half_even (a / u)
           in if 1024 \<le> e \<or> (e = 1023 \<and> 2 ^ 53 \<le> n) then inf_signed (0 < q)
              else Num (if 0 < q then of_int n * u else - (of_int n * u)))"

text \<open>
  \<^verbatim>\<open>Number(x)\<close> and \<^verbatim>\<open>x.toNumber()\<close> of a \<^verbatim>\<open>BigNumber\<close> \<open>x\<close>: the double nearest to the decimal.
\<close>

definition toNumber :: "jsnum \<Rightarrow> jsnum" where
  "toNumber x = (case x of Num q \<Rightarrow> toDouble q | r \<Rightarrow> r)"

text \<open>
  The operators \<^verbatim>\<open>+\<close>, \<^verbatim>\<open>-\<close>, \<^verbatim>\<open>*\<close> and \<^verbatim>\<open>/\<close> of \<^verbatim>\<open>number\<close>: the exact result, rounded to a
  double.
\<close>

definition num_add :: "jsnum \<Rightarrow> jsnum \<Rightarrow> jsnum" where
  "num_add a b = toNumber (bn_plus a b)"

definition num_sub :: "jsnum \<Rightarrow> jsnum \<Rightarrow> jsnum" where
  "num_sub a b = toNumber (bn_minus a b)"

definition num_mul :: "jsnum \<Rightarrow> jsnum \<Rightarrow> jsnum" where
  "num_mul a b = toNumber (bn_times a b)"

definition num_div :: "jsnum \<Rightarrow> jsnum \<Rightarrow> jsnum" where
  "num_div a b = toNumber (quotient a b)"

text \<open>
  \<^verbatim>\<open>new BigNumber(n)\<close> of a \<^verbatim>\<open>number\<close> \<open>n\<close>, which the methods of a \<^verbatim>\<open>BigNumber\<close> apply to a
  \<^verbatim>\<open>number\<close> argument, reads the decimal \<^verbatim>\<open>String(n)\<close>: the decimal with the fewest digits
  whose nearest double is \<open>n\<close> and, among these, the nearest to \<open>n\<close> (the even one in a tie).
  \<open>digitsCandidate d k\<close> is that decimal if one with \<open>k\<close> digits exists; seventeen digits
  are enough for every double.
\<close>

definition digitsCandidate :: "rat \<Rightarrow> nat \<Rightarrow> rat option" where
  "digitsCandidate d k =
     (let scale = pow10 (exponent10 d + 1 - int k);
          lo = \<lfloor>d / scale\<rfloor>;
          below = of_int lo * scale;
          above = of_int (lo + 1) * scale;
          okBelow = (toDouble below = Num d);
          okAbove = (toDouble above = Num d)
      in if okBelow \<and> okAbove
         then Some (if d - below < above - d then below
                    else if above - d < d - below then above
                    else if even lo then below else above)
         else if okBelow then Some below
         else if okAbove then Some above
         else None)"

fun shortest :: "rat \<Rightarrow> nat \<Rightarrow> nat \<Rightarrow> rat" where
  "shortest d k 0 = d"
| "shortest d k (Suc n) =
     (case digitsCandidate d k of Some c \<Rightarrow> c | None \<Rightarrow> shortest d (Suc k) n)"

definition numberToDecimal :: "rat \<Rightarrow> rat" where
  "numberToDecimal d =
     (if d = 0 then 0 else if 0 < d then shortest d 1 17 else - shortest (- d) 1 17)"

definition bigNumberOfNumber :: "jsnum \<Rightarrow> jsnum" where
  "bigNumberOfNumber n = (case n of Num d \<Rightarrow> Num (numberToDecimal d) | r \<Rightarrow> r)"

section \<open>Position aggregation (\<^verbatim>\<open>src/api/pureHelpers.ts\<close>)\<close>

text \<open>
  A failed property access on \<^verbatim>\<open>undefined\<close> and \<^verbatim>\<open>reduce\<close> of an empty array without an
  initial value both throw a \<^verbatim>\<open>TypeError\<close>.
\<close>

datatype error = TypeError

text \<open>
  \<^verbatim>\<open>ViewProtectedLiquidity\<close>, with the fields \<^verbatim>\<open>groupPositionsArray\<close> reads. The nested
  object \<^verbatim>\<open>stake\<close> is flattened (\<open>stake_amount\<close> is \<^verbatim>\<open>stake.amount\<close>). The optional objects
  \<^verbatim>\<open>fullyProtected\<close>, \<^verbatim>\<open>protectedAmount\<close> and \<^verbatim>\<open>fees\<close> are the option of their \<^verbatim>\<open>amount\<close>.
  Amounts are numbers, so \<^verbatim>\<open>Number(...)\<close> leaves them as they are. Times are whole seconds.
  The field \<^verbatim>\<open>id\<close> is \<open>id'\<close>. The type of \<^verbatim>\<open>apr\<close> is left open: the function only copies it.
\<close>

record 'apr ViewProtectedLiquidity =
  id' :: string
  stake_amount :: jsnum
  stake_symbol :: string
  stake_poolId :: string
  stake_unixTime :: int
  fullyProtected :: "jsnum option"
  protectedAmount :: "jsnum option"
  fees :: "jsnum option"
  pendingReserveReward :: jsnum
  apr :: 'apr
  insuranceStart :: int
  coverageDecPercent :: jsnum
  fullCoverage :: jsnum
  bntTokenPrice :: jsnum
  reserveTokenPrice :: jsnum

text \<open>
  \<^verbatim>\<open>ViewGroupedPositions\<close>; every field carries the prefix \<open>g_\<close>, and the objects
  \<^verbatim>\<open>stake\<close>, \<^verbatim>\<open>fullyProtected\<close> and \<^verbatim>\<open>protectedAmount\<close>, built afresh for each item, are
  flattened.
\<close>

record 'apr ViewGroupedPositions =
  g_collapsedData :: "'apr ViewProtectedLiquidity list"
  g_id :: string
  g_positionId :: string
  g_poolId :: string
  g_symbol :: string
  g_apr :: 'apr
  g_insuranceStart :: int
  g_coverageDecPercent :: jsnum
  g_fullCoverage :: jsnum
  g_pendingReserveReward :: jsnum
  g_stake_amount :: jsnum
  g_stake_usdValue :: jsnum
  g_stake_unixTime :: int
  g_fullyProtected_amount :: jsnum
  g_fullyProtected_usdValue :: jsnum
  g_protectedAmount_amount :: jsnum
  g_protectedAmount_usdValue :: jsnum
  g_roi :: jsnum
  g_fees :: jsnum

text \<open>\<^verbatim>\<open>x.stake.amount || 0\<close>: the falsy numbers are \<^verbatim>\<open>0\<close> and \<^verbatim>\<open>NaN\<close>.\<close>

definition orZero :: "jsnum \<Rightarrow> jsnum" where
  "orZero a = (if a = NaN \<or> a = Num 0 then Num 0 else a)"

text \<open>\<^verbatim>\<open>x.fullyProtected ? x.fullyProtected.amount : 0\<close>, and the same for the other two.\<close>

definition amountOrZero :: "jsnum option \<Rightarrow> jsnum" where
  "amountOrZero d = (case d of Some a \<Rightarrow> a | None \<Rightarrow> Num 0)"

text \<open>\<^verbatim>\<open>Array.prototype.reduce\<close> without an initial value.\<close>

definition reduce1 :: "('a \<Rightarrow> 'a \<Rightarrow> 'a) \<Rightarrow> 'a list \<Rightarrow> error + 'a" where
  "reduce1 f xs = (case xs of [] \<Rightarrow> Inl TypeError | x # rest \<Rightarrow> Inr (foldl f x rest))"

text \<open>
  \<^verbatim>\<open>sort(xs).desc(k)\<close> of fast-sort: a stable sort by descending key (it sorts with
  \<^verbatim>\<open>Array.prototype.sort\<close>).
\<close>

definition sortDesc :: "('a \<Rightarrow> int) \<Rightarrow> 'a list \<Rightarrow> 'a list" where
  "sortDesc k xs = sort_key (\<lambda>p. - k p) xs"

text \<open>
  The body of \<^verbatim>\<open>if (!item) { ... }\<close> once the three sums that \<^verbatim>\<open>reduce\<close> computes without an
  initial value are there: the reward adjustment, the USD values, the ROI and the fields of
  the new item. The sums and the prices are \<^verbatim>\<open>number\<close>s and the reward is a \<^verbatim>\<open>BigNumber\<close>, so
  \<^verbatim>\<open>plus\<close>, \<^verbatim>\<open>times\<close> and \<^verbatim>\<open>div\<close> first turn their argument into a \<^verbatim>\<open>BigNumber\<close>, and
  \<^verbatim>\<open>Number(...)\<close> and \<^verbatim>\<open>toNumber()\<close> turn the adjusted sums back into \<^verbatim>\<open>number\<close>s. \<open>cmpString\<close>
  stands for \<^verbatim>\<open>compareString\<close> of \<^verbatim>\<open>@/api/helpers\<close>.
\<close>

definition buildItem ::
  "(string \<Rightarrow> string \<Rightarrow> bool) \<Rightarrow> 'apr ViewProtectedLiquidity \<Rightarrow> string \<Rightarrow> string \<Rightarrow> string
     \<Rightarrow> jsnum \<Rightarrow> jsnum \<Rightarrow> jsnum \<Rightarrow> jsnum \<Rightarrow> 'apr ViewGroupedPositions" where
  "buildItem cmpString val ident poolId symbol sumStakeAmount sumFullyProtected
       sumProtectedAmount sumFees =
     (let reward = pendingReserveReward val;
          bntRewardUsd = bn_times reward (bigNumberOfNumber (bntTokenPrice val));
          sumFullyProtectedWithReward =
            (if cmpString symbol ''BNT''
             then bn_plus reward (bigNumberOfNumber sumFullyProtected)
             else bn_plus (bn_dividedBy bntRewardUsd (bigNumberOfNumber (reserveTokenPrice val)))
                    (bigNumberOfNumber sumFullyProtected));
          sumProtectedWithReward =
            (if cmpString symbol ''BNT''
             then bn_plus reward (bigNumberOfNumber sumProtectedAmount)
             else bn_plus (bn_dividedBy bntRewardUsd (bigNumberOfNumber (reserveTokenPrice val)))
                    (bigNumberOfNumber sumProtectedAmount));
          sumFullyProtectedWithRewardUSD =
            num_mul (toNumber sumFullyProtectedWithReward) (reserveTokenPrice val);
          sumProtectedWithRewardUSD =
            num_mul (toNumber sumProtectedWithReward) (reserveTokenPrice val)
      in \<lparr>g_collapsedData = [],
          g_id = ident,
          g_positionId = id' val,
          g_poolId = poolId,
          g_symbol = symbol,
          g_apr = apr val,
          g_insuranceStart = insuranceStart val,
          g_coverageDecPercent = coverageDecPercent val,
          g_fullCoverage = fullCoverage val,
          g_pendingReserveReward = reward,
          g_stake_amount = sumStakeAmount,
          g_stake_usdValue = num_mul sumStakeAmount (reserveTokenPrice val),
          g_stake_unixTime = stake_unixTime val,
          g_fullyProtected_amount = toNumber sumFullyProtectedWithReward,
          g_fullyProtected_usdValue = sumFullyProtectedWithRewardUSD,
          g_protectedAmount_amount = toNumber sumProtectedWithReward,
          g_protectedAmount_usdValue = sumProtectedWithRewardUSD,
          g_roi =
            num_div (num_sub (toNumber sumFullyProtectedWithReward) sumStakeAmount) sumStakeAmount,
          g_fees = sumFees\<rparr>)"

definition newItem ::
  "(string \<Rightarrow> string \<Rightarrow> bool) \<Rightarrow> 'apr ViewProtectedLiquidity \<Rightarrow> string \<Rightarrow> string \<Rightarrow> string
     \<Rightarrow> 'apr ViewProtectedLiquidity list \<Rightarrow> error + 'apr ViewGroupedPositions" where
  "newItem cmpString val ident poolId symbol filtered =
     (case reduce1 num_add (map (\<lambda>x. orZero (stake_amount x)) filtered) of
        Inl e \<Rightarrow> Inl e
      | Inr sumStakeAmount \<Rightarrow>
     (case reduce1 num_add (map (\<lambda>x. amountOrZero (fullyProtected x)) filtered) of
        Inl e \<Rightarrow> Inl e
      | Inr sumFullyProtected \<Rightarrow>
     (case reduce1 num_add (map (\<lambda>x. amountOrZero (protectedAmount x)) filtered) of
        Inl e \<Rightarrow> Inl e
      | Inr sumProtectedAmount \<Rightarrow>
          Inr (buildItem cmpString val ident poolId symbol sumStakeAmount sumFullyProtected
                 sumProtectedAmount
                 (foldl num_add (Num 0) (map (\<lambda>x. amountOrZero (fees x)) filtered))))))"

text \<open>
  The two statements after \<^verbatim>\<open>if (!item) { ... }\<close>, which run for every element: the earlier
  \<^verbatim>\<open>insuranceStart\<close> wins, and \<^verbatim>\<open>val\<close> joins \<^verbatim>\<open>collapsedData\<close> when its group has more than
  one member.
\<close>

definition touchItem ::
  "'apr ViewProtectedLiquidity \<Rightarrow> 'apr ViewProtectedLiquidity list
     \<Rightarrow> 'apr ViewGroupedPositions \<Rightarrow> 'apr ViewGroupedPositions" where
  "touchItem val filtered item =
     (let item1 =
            (if insuranceStart val < g_insuranceStart item
             then item\<lparr>g_insuranceStart := insuranceStart val,
                       g_coverageDecPercent := coverageDecPercent val,
                       g_fullCoverage := fullCoverage val,
                       g_stake_unixTime := stake_unixTime val\<rparr>
             else item)
      in if 1 < length filtered
         then item1\<lparr>g_collapsedData := sortDesc stake_unixTime (g_collapsedData item1 @ [val])\<rparr>
         else item1)"

text \<open>
  The callback of \<^verbatim>\<open>arr.reduce\<close>. The \<^verbatim>\<open>Map\<close> \<^verbatim>\<open>obj\<close> and the array \<^verbatim>\<open>acc\<close> hold the same item
  objects, and the callback mutates an item it finds in \<^verbatim>\<open>obj\<close>; so \<^verbatim>\<open>acc\<close> is the store of
  the items and \<^verbatim>\<open>obj\<close> maps an id to the position of its item in \<^verbatim>\<open>acc\<close>.
\<close>

type_synonym 'apr GroupState = "(string \<Rightarrow> nat option) \<times> 'apr ViewGroupedPositions list"

definition reducer ::
  "(string \<Rightarrow> string \<Rightarrow> bool) \<Rightarrow> 'apr ViewProtectedLiquidity list \<Rightarrow> 'apr GroupState
     \<Rightarrow> 'apr ViewProtectedLiquidity \<Rightarrow> error + 'apr GroupState" where
  "reducer cmpString arr st val =
     (let obj = fst st;
          acc = snd st;
          symbol = stake_symbol val;
          poolId = stake_poolId val;
          ident = poolId @ ''-'' @ symbol;
          filtered = filter (\<lambda>x. stake_poolId x = poolId \<and> stake_symbol x = symbol) arr
      in case obj ident of
           Some i \<Rightarrow> Inr (obj, acc[i := touchItem val filtered (acc ! i)])
         | None \<Rightarrow>
             (case newItem cmpString val ident poolId symbol filtered of
                Inl e \<Rightarrow> Inl e
              | Inr item \<Rightarrow>
                  Inr (obj(ident \<mapsto> length acc), acc @ [touchItem val filtered item])))"

fun reduceE :: "('s \<Rightarrow> 'a \<Rightarrow> error + 's) \<Rightarrow> 's \<Rightarrow> 'a list \<Rightarrow> error + 's" where
  "reduceE f s [] = Inr s"
| "reduceE f s (x # xs) = (case f s x of Inl e \<Rightarrow> Inl e | Inr s' \<Rightarrow> reduceE f s' xs)"

text \<open>
  \<^verbatim>\<open>groupPositionsArray\<close>. The \<^verbatim>\<open>console.log\<close> at its head reads \<^verbatim>\<open>arr[0].pendingReserveReward\<close>,
  which throws when \<^verbatim>\<open>arr\<close> is empty.
\<close>

definition groupPositionsArray ::
  "(string \<Rightarrow> string \<Rightarrow> bool) \<Rightarrow> 'apr ViewProtectedLiquidity list
     \<Rightarrow> error + 'apr ViewGroupedPositions list" where
  "groupPositionsArray cmpString arr =
     (case arr of
        [] \<Rightarrow> Inl TypeError
      | _ # _ \<Rightarrow>
          (case reduceE (reducer cmpString arr) (Map.empty, []) arr of
             Inl e \<Rightarrow> Inl e
           | Inr st \<Rightarrow> Inr (snd st)))"

text \<open>
  Modelled from the spec: \<^verbatim>\<open>compareString\<close> of \<^verbatim>\<open>@/api/helpers\<close>, which the two source files
  import and which is not among them. The spec describes the comparison of the cache stage
  as string equality. The functions above and below take the comparison as the argument
  \<open>cmpString\<close>; this constant is what concrete runs pass for it.
\<close>

definition compareString :: "string \<Rightarrow> string \<Rightarrow> bool" where
  "compareString a b = (a = b)"

text \<open>
  The names used to speak about a group: its id, its members, and the two sums of the
  source, both in the arithmetic of \<^verbatim>\<open>number\<close> and from left to right: \<open>sumOf\<close> is \<^verbatim>\<open>reduce\<close>
  without an initial value, on a list that is not empty, and \<open>sumFrom0\<close> is \<^verbatim>\<open>reduce\<close> from
  \<^verbatim>\<open>0\<close>.
\<close>

definition idOf :: "'apr ViewProtectedLiquidity \<Rightarrow> string" where
  "idOf v = stake_poolId v @ ''-'' @ stake_symbol v"

definition members ::
  "'apr ViewProtectedLiquidity list \<Rightarrow> string \<Rightarrow> string \<Rightarrow> 'apr ViewProtectedLiquidity list" where
  "members arr poolId symbol =
     filter (\<lambda>x. stake_poolId x = poolId \<and> stake_symbol x = symbol) arr"

definition sumOf :: "jsnum list \<Rightarrow> jsnum" where
  "sumOf xs = (case xs of [] \<Rightarrow> Num 0 | x # rest \<Rightarrow> foldl num_add x rest)"

definition sumFrom0 :: "jsnum list \<Rightarrow> jsnum" where
  "sumFrom0 xs = foldl num_add (Num 0) xs"

text \<open>A raw position for concrete runs, with the fields the scenarios leave open filled in.\<close>

definition rawPosition ::
  "string \<Rightarrow> string \<Rightarrow> string \<Rightarrow> rat \<Rightarrow> rat \<Rightarrow> rat \<Rightarrow> int \<Rightarrow> unit ViewProtectedLiquidity" where
  "rawPosition i pool sy stk fp reward t =
     \<lparr>id' = i, stake_amount = Num stk, stake_symbol = sy, stake_poolId = pool,
      stake_unixTime = t, fullyProtected = Some (Num fp), protectedAmount = None, fees = None,
      pendingReserveReward = Num reward, apr = (), insuranceStart = t,
      coverageDecPercent = Num 1, fullCoverage = Num 0, bntTokenPrice = Num 1,
      reserveTokenPrice = Num 1\<rparr>"

subsection \<open>What the reduction computes\<close>

text \<open>
  The item that the callback creates for \<open>v\<close>, before the two statements that follow the
  creation: the sums run over the members of the group of \<open>v\<close> in the whole input.
\<close>

definition created ::
  "(string \<Rightarrow> string \<Rightarrow> bool) \<Rightarrow> 'apr ViewProtectedLiquidity list \<Rightarrow> 'apr ViewProtectedLiquidity
     \<Rightarrow> 'apr ViewGroupedPositions" where
  "created cmpString arr v =
     (let filtered = members arr (stake_poolId v) (stake_symbol v)
      in buildItem cmpString v (idOf v) (stake_poolId v) (stake_symbol v)
           (sumOf (map (\<lambda>x. orZero (stake_amount x)) filtered))
           (sumOf (map (\<lambda>x. amountOrZero (fullyProtected x)) filtered))
           (sumOf (map (\<lambda>x. amountOrZero (protectedAmount x)) filtered))
           (sumFrom0 (map (\<lambda>x. amountOrZero (fees x)) filtered)))"

text \<open>The two statements that follow the creation, for the element \<open>x\<close> of the input \<open>arr\<close>.\<close>

definition touch ::
  "'apr ViewProtectedLiquidity list \<Rightarrow> 'apr ViewGroupedPositions \<Rightarrow> 'apr ViewProtectedLiquidity
     \<Rightarrow> 'apr ViewGroupedPositions" where
  "touch arr item x = touchItem x (members arr (stake_poolId x) (stake_symbol x)) item"

text \<open>The elements with a given id, and the first element of each id, both in input order.\<close>

definition sameId :: "'apr ViewProtectedLiquidity list \<Rightarrow> string \<Rightarrow> 'apr ViewProtectedLiquidity list" where
  "sameId arr k = filter (\<lambda>x. idOf x = k) arr"

fun firsts :: "'apr ViewProtectedLiquidity list \<Rightarrow> 'apr ViewProtectedLiquidity list" where
  "firsts [] = []"
| "firsts (x # xs) = x # filter (\<lambda>y. idOf y \<noteq> idOf x) (firsts xs)"

text \<open>
  The item of the group of \<open>w\<close> once the elements \<open>pre\<close> have gone through the callback, and
  at the end.
\<close>

definition groupAfter ::
  "(string \<Rightarrow> string \<Rightarrow> bool) \<Rightarrow> 'apr ViewProtectedLiquidity list \<Rightarrow> 'apr ViewProtectedLiquidity list
     \<Rightarrow> 'apr ViewProtectedLiquidity \<Rightarrow> 'apr ViewGroupedPositions" where
  "groupAfter cmpString arr pre w = foldl (touch arr) (created cmpString arr w) (sameId pre (idOf w))"

definition groupOf ::
  "(string \<Rightarrow> string \<Rightarrow> bool) \<Rightarrow> 'apr ViewProtectedLiquidity list
     \<Rightarrow> 'apr ViewProtectedLiquidity \<Rightarrow> 'apr ViewGroupedPositions" where
  "groupOf cmpString arr w = groupAfter cmpString arr arr w"

text \<open>
  The id \<^verbatim>\<open>`${poolId}-${symbol}`\<close> does not always tell the pair: \<^verbatim>\<open>a-b\<close> with \<^verbatim>\<open>c\<close> and
  \<^verbatim>\<open>a\<close> with \<^verbatim>\<open>b-c\<close> share \<^verbatim>\<open>a-b-c\<close>. An input is unambiguous when elements with the same
  id have the same pool and symbol.
\<close>

definition idsUnambiguous :: "'apr ViewProtectedLiquidity list \<Rightarrow> bool" where
  "idsUnambiguous arr =
     list_all (\<lambda>x. list_all (\<lambda>y. if idOf x = idOf y
                                   then stake_poolId x = stake_poolId y \<and> stake_symbol x = stake_symbol y
                                   else True) arr) arr"








text \<open>
  Concrete inputs: the scenario of the specification and its reversal; one position with no
  stake; two pairs with one id; two positions of one group with the same \<^verbatim>\<open>insuranceStart\<close>
  and different rewards, coverage and \<^verbatim>\<open>apr\<close>, and their reversal; three positions of one
  group whose stakes, and fees, add up differently in the two orders.
\<close>

definition scenario :: "unit ViewProtectedLiquidity list" where
  "scenario = [rawPosition ''1'' ''P1'' ''BNT'' 100 110 5 10, rawPosition ''2'' ''P1'' ''BNT'' 50 55 2 20]"


definition zeroStake :: "unit ViewProtectedLiquidity list" where
  "zeroStake = [rawPosition ''1'' ''P1'' ''BNT'' 0 10 0 10]"

definition sharedId :: "unit ViewProtectedLiquidity list" where
  "sharedId = [rawPosition ''1'' ''a-b'' ''c'' 1 1 0 10, rawPosition ''2'' ''a'' ''b-c'' 2 2 0 20]"





definition bigStakes :: "unit ViewProtectedLiquidity list" where
  "bigStakes =
     [(rawPosition ''1'' ''P1'' ''BNT'' 9007199254740992 0 0 10)\<lparr>fees := Some (Num 9007199254740992)\<rparr>,
      (rawPosition ''2'' ''P1'' ''BNT'' 1 0 0 20)\<lparr>fees := Some (Num 1)\<rparr>,
      (rawPosition ''3'' ''P1'' ''BNT'' 1 0 0 30)\<lparr>fees := Some (Num 1)\<rparr>]"

definition bigStakesReversed :: "unit ViewProtectedLiquidity list" where
  "bigStakesReversed =
     [(rawPosition ''3'' ''P1'' ''BNT'' 1 0 0 30)\<lparr>fees := Some (Num 1)\<rparr>,
      (rawPosition ''2'' ''P1'' ''BNT'' 1 0 0 20)\<lparr>fees := Some (Num 1)\<rparr>,
      (rawPosition ''1'' ''P1'' ''BNT'' 9007199254740992 0 0 10)\<lparr>fees := Some (Num 9007199254740992)\<rparr>]"

section \<open>Price deviation and minting limits (\<^verbatim>\<open>src/api/pureHelpers.ts\<close>)\<close>

definition oneMillion :: jsnum where
  "oneMillion = Num 1000000"

definition calculatePriceDeviationTooHigh :: "jsnum \<Rightarrow> jsnum \<Rightarrow> jsnum \<Rightarrow> jsnum \<Rightarrow> bool" where
  "calculatePriceDeviationTooHigh averageRate primaryReserveBalance secondaryReserveBalance
       averageRateMaxDeviation =
     (let spotRate = bn_dividedBy primaryReserveBalance secondaryReserveBalance;
          averageRateMaxDeviationBase = bn_minus oneMillion averageRateMaxDeviation;
          threshold = bn_dividedBy averageRate spotRate;
          withinLowerThreshold =
            bn_isGreaterThan threshold (bn_dividedBy averageRateMaxDeviationBase oneMillion);
          withinHigherThreshold =
            bn_isGreaterThan (bn_dividedBy oneMillion averageRateMaxDeviationBase) threshold;
          priceDeviationTooHigh = (\<not> (withinLowerThreshold \<and> withinHigherThreshold))
      in priceDeviationTooHigh)"

text \<open>
  The same function in the words of the specification: the result is false exactly when the
  threshold lies strictly between the two bounds.
\<close>

definition priceDeviationTooHigh_spec :: "jsnum \<Rightarrow> jsnum \<Rightarrow> jsnum \<Rightarrow> jsnum \<Rightarrow> bool" where
  "priceDeviationTooHigh_spec averageRate primaryReserveBalance secondaryReserveBalance
       maxDeviationPpm =
     (let spotRate = bn_dividedBy primaryReserveBalance secondaryReserveBalance;
          threshold = bn_dividedBy averageRate spotRate;
          lower = bn_dividedBy (bn_minus (Num 1000000) maxDeviationPpm) (Num 1000000);
          upper = bn_dividedBy (Num 1000000) (bn_minus (Num 1000000) maxDeviationPpm)
      in \<not> (bn_isGreaterThan threshold lower \<and> bn_isGreaterThan upper threshold))"

record Limits =
  bntLimitWei :: string
  tknLimitWei :: jsnum

text \<open>
  \<^verbatim>\<open>calculateLimits\<close>. Its arguments are strings; \<open>BigNumber\<close> stands for the constructor
  \<^verbatim>\<open>new BigNumber(string)\<close> of the library, which \<^verbatim>\<open>minus\<close> and \<^verbatim>\<open>dividedBy\<close> also apply to a
  string argument. The literals \<^verbatim>\<open>"99.9"\<close> and \<^verbatim>\<open>"100"\<close> are written as their values.
\<close>

definition calculateLimits ::
  "(string \<Rightarrow> jsnum) \<Rightarrow> string \<Rightarrow> string \<Rightarrow> string \<Rightarrow> string \<Rightarrow> string \<Rightarrow> Limits" where
  "calculateLimits BigNumber poolLimitWei defaultLimitWei mintedWei tknReserveBalance
       bntReserveBalance =
     (let limitOrDefault = BigNumber (if poolLimitWei \<noteq> ''0'' then poolLimitWei else defaultLimitWei);
          tknDelta = bn_minus limitOrDefault (BigNumber mintedWei);
          bntRate = bn_dividedBy (BigNumber tknReserveBalance) (BigNumber bntReserveBalance);
          tknLimitWei = bn_times bntRate tknDelta;
          tknLimitWei' = bn_times tknLimitWei (bn_dividedBy (Num (999 / 10)) (Num 100))
      in \<lparr>bntLimitWei = mintedWei, tknLimitWei = tknLimitWei'\<rparr>)"

text \<open>
  \<^verbatim>\<open>new BigNumber(s)\<close> for a string \<open>s\<close> of decimal digits, as a wei amount is. The concrete
  runs pass it for \<open>BigNumber\<close>; they give it no other string, and \<^verbatim>\<open>NaN\<close> is its value there.
\<close>

fun digitsValue :: "string \<Rightarrow> nat \<Rightarrow> nat option" where
  "digitsValue [] acc = Some acc"
| "digitsValue (c # cs) acc =
     (let n = (of_char c :: nat)
      in if 48 \<le> n \<and> n \<le> 57 then digitsValue cs (10 * acc + (n - 48)) else None)"

definition bigNumberOfDigits :: "string \<Rightarrow> jsnum" where
  "bigNumberOfDigits s =
     (if s = [] then NaN
      else case digitsValue s 0 of Some n \<Rightarrow> Num (of_nat n) | None \<Rightarrow> NaN)"

section \<open>Stream stages (\<^verbatim>\<open>src/api/observables.ts\<close>)\<close>

text \<open>
  An observable is taken as the list of the values it delivers, in order; an operator maps
  such a list to the list of what it passes on.
\<close>

record 'a DataCache =
  allEmissions :: "'a list"
  newData :: "'a list"

text \<open>
  \<^verbatim>\<open>differenceWith(array, values, comparator)\<close> of lodash keeps the elements of \<^verbatim>\<open>array\<close> that
  the comparator matches with no element of \<^verbatim>\<open>values\<close>; \<^verbatim>\<open>isEqual\<close> is deep equality.
\<close>

definition differenceWith :: "('a \<Rightarrow> 'a \<Rightarrow> bool) \<Rightarrow> 'a list \<Rightarrow> 'a list \<Rightarrow> 'a list" where
  "differenceWith comparator array values =
     filter (\<lambda>x. \<not> list_ex (\<lambda>y. comparator x y) values) array"

definition isEqual :: "'a \<Rightarrow> 'a \<Rightarrow> bool" where
  "isEqual a b = (a = b)"

fun scan :: "('s \<Rightarrow> 'a \<Rightarrow> 's) \<Rightarrow> 's \<Rightarrow> 'a list \<Rightarrow> 's list" where
  "scan f acc [] = []"
| "scan f acc (x # xs) = f acc x # scan f (f acc x) xs"

definition startWith :: "'a \<Rightarrow> 'a list \<Rightarrow> 'a list" where
  "startWith v source = v # source"

definition pluck :: "('s \<Rightarrow> 'a) \<Rightarrow> 's list \<Rightarrow> 'a list" where
  "pluck field source = map field source"

definition distinctArrayItem ::
  "'a list \<Rightarrow> ('a \<Rightarrow> 'a \<Rightarrow> bool) option \<Rightarrow> 'a list list \<Rightarrow> 'a list list" where
  "distinctArrayItem initialValue comparator source =
     startWith initialValue
       (pluck newData
          (filter (\<lambda>dataCache. 0 < length (newData dataCache))
             (scan
                (\<lambda>acc item.
                   let difference =
                         differenceWith (case comparator of Some c \<Rightarrow> c | None \<Rightarrow> isEqual) item
                           (allEmissions acc)
                   in \<lparr>allEmissions = allEmissions acc @ difference, newData = difference\<rparr>)
                \<lparr>allEmissions = initialValue, newData = []\<rparr>
                source)))"

text \<open>
  The incremental accumulator in the words of the specification: for each batch, the
  elements not yet in \<open>allSeen\<close> are appended to it and emitted, and nothing is emitted when
  there are none.
\<close>

fun accumulator_spec :: "('a \<Rightarrow> 'a \<Rightarrow> bool) \<Rightarrow> 'a list \<Rightarrow> 'a list list \<Rightarrow> 'a list list" where
  "accumulator_spec eq allSeen [] = []"
| "accumulator_spec eq allSeen (batch # rest) =
     (let newest = filter (\<lambda>x. \<not> list_ex (eq x) allSeen) batch
      in (if newest = [] then [] else [newest]) @ accumulator_spec eq (allSeen @ newest) rest)"

text \<open>
  \<^verbatim>\<open>distinctUntilChanged(compare)\<close> passes the first value, and then each value that
  \<^verbatim>\<open>compare\<close> does not match with the last value passed.
\<close>

fun distinctFrom :: "('a \<Rightarrow> 'a \<Rightarrow> bool) \<Rightarrow> 'a option \<Rightarrow> 'a list \<Rightarrow> 'a list" where
  "distinctFrom compare key [] = []"
| "distinctFrom compare key (x # xs) =
     (case key of
        None \<Rightarrow> x # distinctFrom compare (Some x) xs
      | Some k \<Rightarrow>
          (if compare k x then distinctFrom compare key xs
           else x # distinctFrom compare (Some x) xs))"

definition distinctUntilChanged :: "('a \<Rightarrow> 'a \<Rightarrow> bool) \<Rightarrow> 'a list \<Rightarrow> 'a list" where
  "distinctUntilChanged compare source = distinctFrom compare None source"

text \<open>
  \<^verbatim>\<open>localStorage\<close>: its content, and the calls of \<^verbatim>\<open>setItem\<close> made so far. \<^verbatim>\<open>tap\<close> passes
  every value on and runs its effect on the state for each.
\<close>

record LocalStorage =
  items :: "string \<Rightarrow> string option"
  setItemCalls :: "(string \<times> string) list"

definition getItem :: "LocalStorage \<Rightarrow> string \<Rightarrow> string option" where
  "getItem ls key = items ls key"

definition setItem :: "string \<Rightarrow> string \<Rightarrow> LocalStorage \<Rightarrow> LocalStorage" where
  "setItem key data ls =
     ls\<lparr>items := (items ls)(key \<mapsto> data), setItemCalls := setItemCalls ls @ [(key, data)]\<rparr>"

definition tap :: "('a \<Rightarrow> 's \<Rightarrow> 's) \<Rightarrow> 'a list \<Rightarrow> 's \<Rightarrow> 'a list \<times> 's" where
  "tap effect source s = (source, foldl (\<lambda>s' data. effect data s') s source)"

text \<open>
  \<^verbatim>\<open>optimisticContract\<close>: the values passed on and the storage afterwards. \<^verbatim>\<open>if (cachedData)\<close>
  holds for a stored string that is not empty.
\<close>

definition optimisticContract ::
  "(string \<Rightarrow> string \<Rightarrow> bool) \<Rightarrow> string \<Rightarrow> string list \<Rightarrow> LocalStorage
     \<Rightarrow> string list \<times> LocalStorage" where
  "optimisticContract cmpString key source ls =
     (case getItem ls key of
        Some (c # cs) \<Rightarrow>
          (let cachedData = c # cs
           in tap (\<lambda>data. let isSame = (cachedData = data)
                           in if \<not> isSame then setItem key data else (\<lambda>s. s))
                (distinctUntilChanged cmpString (startWith cachedData source)) ls)
      | _ \<Rightarrow> tap (\<lambda>data. setItem key data) (distinctUntilChanged cmpString source) ls)"

definition storageWith :: "string \<Rightarrow> string \<Rightarrow> LocalStorage" where
  "storageWith key v = \<lparr>items = Map.empty(key \<mapsto> v), setItemCalls = []\<rparr>"

section \<open>Properties of the calculations\<close>

lemma bn_times_commute: "bn_times a b = bn_times b a"
  by (cases a; cases b) (simp_all add: mult.commute)

lemma round_half_up_of_int: "round_half_up (of_int n) = n"
  unfolding round_half_up_def
  by (simp add: floor_eq_iff)

lemma buffer_value: "bn_dividedBy (Num (999 / 10)) (Num 100) = Num (999 / 1000)"
  by code_simp

lemma bn_round_one: "bn_round 1 = 1"
  using round_half_up_of_int [of "10 ^ DECIMAL_PLACES"]
  by (simp add: bn_round_def)

lemma bn_dividedBy_self: "r \<noteq> 0 \<Longrightarrow> bn_dividedBy (Num r) (Num r) = Num 1"
  by (simp add: bn_dividedBy_def bn_round_one)

lemma bn_round_less_one:
  assumes "0 \<le> q" and "q * 10 ^ DECIMAL_PLACES < 10 ^ DECIMAL_PLACES - 1 / 2"
  shows "bn_round q < 1"
proof -
  let ?S = "(10::rat) ^ DECIMAL_PLACES"
  have "0 \<le> q * ?S" using assms(1) by simp
  then have r: "round_half_up (q * ?S) = \<lfloor>q * ?S + 1 / 2\<rfloor>"
    by (simp add: round_half_up_def)
  have "q * ?S + 1 / 2 < of_int (10 ^ DECIMAL_PLACES)"
    using assms(2) by simp
  then have "\<lfloor>q * ?S + 1 / 2\<rfloor> < 10 ^ DECIMAL_PLACES"
    by (simp only: floor_less_iff)
  then have "(of_int (round_half_up (q * ?S)) :: rat) < of_int (10 ^ DECIMAL_PLACES)"
    unfolding r by (simp only: of_int_less_iff)
  then show ?thesis
    by (simp add: bn_round_def divide_less_eq)
qed

lemma bn_round_greater_one:
  assumes "10 ^ DECIMAL_PLACES + 1 / 2 \<le> q * 10 ^ DECIMAL_PLACES"
  shows "1 < bn_round q"
proof -
  let ?S = "(10::rat) ^ DECIMAL_PLACES"
  have "0 \<le> q * ?S"
    using assms by (smt (verit) zero_le_power divide_nonneg_nonneg add_nonneg_nonneg order_trans zero_le_numeral zero_le_one)
  then have r: "round_half_up (q * ?S) = \<lfloor>q * ?S + 1 / 2\<rfloor>"
    by (simp add: round_half_up_def)
  have "of_int (10 ^ DECIMAL_PLACES + 1) \<le> q * ?S + 1 / 2"
    using assms by simp
  then have "10 ^ DECIMAL_PLACES + 1 \<le> \<lfloor>q * ?S + 1 / 2\<rfloor>"
    by (simp only: le_floor_iff)
  then have "(10::int) ^ DECIMAL_PLACES < round_half_up (q * ?S)"
    unfolding r by simp
  then have "(of_int (10 ^ DECIMAL_PLACES) :: rat) < of_int (round_half_up (q * ?S))"
    by (simp only: of_int_less_iff)
  then show ?thesis
    by (simp add: bn_round_def less_divide_eq)
qed

lemma lower_bound_below_one:
  assumes "5 / 10 ^ 15 < k" and "k \<le> 1000000"
  shows "bn_isGreaterThan (Num 1) (bn_dividedBy (bn_minus oneMillion (Num k)) oneMillion)"
proof -
  have "bn_round ((1000000 - k) / 1000000) < 1"
  proof (rule bn_round_less_one)
    show "0 \<le> (1000000 - k) / 1000000" using assms(2) by simp
    show "(1000000 - k) / 1000000 * 10 ^ DECIMAL_PLACES < 10 ^ DECIMAL_PLACES - 1 / 2"
      using assms(1) by (simp add: DECIMAL_PLACES_def field_simps)
  qed
  then show ?thesis
    by (simp add: oneMillion_def bn_minus_def bn_dividedBy_def)
qed

lemma upper_bound_above_one:
  assumes "5 / 10 ^ 15 < k" and "k \<le> 1000000"
  shows "bn_isGreaterThan (bn_dividedBy oneMillion (bn_minus oneMillion (Num k))) (Num 1)"
proof (cases "k = 1000000")
  case True
  then show ?thesis
    by (simp add: oneMillion_def bn_minus_def bn_dividedBy_def inf_signed_def)
next
  case False
  then have pos: "0 < 1000000 - k" using assms(2) by simp
  have "1 < bn_round (1000000 / (1000000 - k))"
  proof (rule bn_round_greater_one)
    have "(10 ^ 20 + 1 / 2) * (1000000 - k) \<le> 1000000 * 10 ^ 20"
      using assms by (simp add: field_simps)
    then have "10 ^ 20 + 1 / 2 \<le> 1000000 * 10 ^ 20 / (1000000 - k)"
      using pos by (simp add: le_divide_eq)
    then show "10 ^ DECIMAL_PLACES + 1 / 2 \<le> 1000000 / (1000000 - k) * 10 ^ DECIMAL_PLACES"
      by (simp add: DECIMAL_PLACES_def)
  qed
  then show ?thesis
    using False by (simp add: oneMillion_def bn_minus_def bn_dividedBy_def)
qed

text \<open>
  C7. \<^verbatim>\<open>calculatePriceDeviationTooHigh\<close> computes the spot rate and the threshold as the
  specification says and is false exactly when the threshold lies strictly between
  \<open>(1000000 - maxDeviationPpm) / 1000000\<close> and \<open>1000000 / (1000000 - maxDeviationPpm)\<close>, the
  divisions being those of bignumber.js. When the average rate equals a finite, nonzero spot
  rate, the result is false for every \<open>maxDeviationPpm\<close> above \<open>5 / 10 ^ 15\<close> and up to
  \<open>1000000\<close>; a positive deviation alone does not give this.
\<close>

theorem calculatePriceDeviationTooHigh_interval:
  "calculatePriceDeviationTooHigh a p s m = priceDeviationTooHigh_spec a p s m \<and>
   (bn_dividedBy p s = Num r \<and> r \<noteq> 0 \<and> a = Num r \<and> m = Num k \<and> 5 / 10 ^ 15 < k
      \<and> k \<le> 1000000 \<longrightarrow> \<not> calculatePriceDeviationTooHigh a p s m)"
proof (intro conjI impI)
  show "calculatePriceDeviationTooHigh a p s m = priceDeviationTooHigh_spec a p s m"
    by (simp add: calculatePriceDeviationTooHigh_def priceDeviationTooHigh_spec_def oneMillion_def
        Let_def)
next
  assume h: "bn_dividedBy p s = Num r \<and> r \<noteq> 0 \<and> a = Num r \<and> m = Num k \<and> 5 / 10 ^ 15 < k
      \<and> k \<le> 1000000"
  then have thr: "bn_dividedBy a (bn_dividedBy p s) = Num 1"
    by (simp add: bn_dividedBy_self)
  from h have lo: "bn_isGreaterThan (Num 1) (bn_dividedBy (bn_minus oneMillion m) oneMillion)"
    using lower_bound_below_one [of k] by simp
  from h have hi: "bn_isGreaterThan (bn_dividedBy oneMillion (bn_minus oneMillion m)) (Num 1)"
    using upper_bound_above_one [of k] by simp
  show "\<not> calculatePriceDeviationTooHigh a p s m"
    using thr lo hi by (simp add: calculatePriceDeviationTooHigh_def Let_def)
qed

theorem calculatePriceDeviationTooHigh_interval_witness:
  "bn_dividedBy (Num 4) (Num 2) = Num 2 \<and> (2::rat) \<noteq> 0 \<and> (5::rat) / 10 ^ 15 < 5000
     \<and> (5000::rat) \<le> 1000000
     \<and> \<not> calculatePriceDeviationTooHigh (Num 2) (Num 4) (Num 2) (Num 5000)"
proof -
  have d: "bn_dividedBy (Num 4) (Num 2) = Num 2" by code_simp
  have n: "(5::rat) / 10 ^ 15 < 5000" by simp
  have "bn_dividedBy (Num 4) (Num 2) = Num 2 \<and> (2::rat) \<noteq> 0 \<and> Num 2 = Num 2
      \<and> Num 5000 = Num 5000 \<and> (5::rat) / 10 ^ 15 < 5000 \<and> (5000::rat) \<le> 1000000
      \<longrightarrow> \<not> calculatePriceDeviationTooHigh (Num 2) (Num 4) (Num 2) (Num 5000)"
    using calculatePriceDeviationTooHigh_interval
      [of "Num 2" "Num 4" "Num 2" "Num 5000" 2 5000] by (rule conjunct2)
  then show ?thesis
    using d n by simp
qed

text \<open>
  C7, as stated, fails for a deviation above 1000000: with the average rate and the spot
  rate both 1 and \<open>maxDeviationPpm = 2000000\<close>, the upper bound is \<open>-1\<close> and the result is
  true.
\<close>

theorem calculatePriceDeviationTooHigh_identity_counterexample:
  "bn_dividedBy (Num 1) (Num 1) = Num 1 \<and> bn_isGreaterThan (Num 2000000) (Num 0)
     \<and> calculatePriceDeviationTooHigh (Num 1) (Num 1) (Num 1) (Num 2000000)"
  by code_simp

text \<open>
  C8. The effective limit of \<^verbatim>\<open>calculateLimits\<close> is \<^verbatim>\<open>poolLimitWei\<close> unless that string is
  exactly \<^verbatim>\<open>"0"\<close>, where it is \<^verbatim>\<open>defaultLimitWei\<close>; \<^verbatim>\<open>tknLimitWei\<close> is the headroom times the
  reserve ratio times 0.999, where the reserve ratio is the quotient that \<^verbatim>\<open>dividedBy\<close> rounds
  to 20 decimals. With the pool limit \<^verbatim>\<open>"0"\<close>, the default \<^verbatim>\<open>"1000"\<close> and \<^verbatim>\<open>"200"\<close> minted, the
  limit used is 1000.
\<close>

theorem calculateLimits_tknLimitWei:
  "tknLimitWei (calculateLimits BigNumber poolLimitWei defaultLimitWei mintedWei tkn bnt) =
     bn_times
       (bn_times
          (bn_minus (BigNumber (if poolLimitWei = ''0'' then defaultLimitWei else poolLimitWei))
             (BigNumber mintedWei))
          (bn_dividedBy (BigNumber tkn) (BigNumber bnt)))
       (Num (999 / 1000))
   \<and> tknLimitWei (calculateLimits BigNumber ''0'' ''1000'' ''200'' tkn bnt) =
     bn_times
       (bn_times (bn_minus (BigNumber ''1000'') (BigNumber ''200''))
          (bn_dividedBy (BigNumber tkn) (BigNumber bnt)))
       (Num (999 / 1000))"
  by (simp add: calculateLimits_def buffer_value bn_times_commute)

text \<open>
  C8, as stated, fails where the reserve ratio is no decimal of 20 places: for the reserve
  balances \<^verbatim>\<open>"1"\<close> and \<^verbatim>\<open>"3"\<close> the result is 266.399999999999999997336, and the product with
  the plain quotient is 266.4.
\<close>

theorem calculateLimits_quotient_counterexample:
  "tknLimitWei (calculateLimits bigNumberOfDigits ''0'' ''1000'' ''200'' ''1'' ''3'')
     = Num (266399999999999999997336 / 1000000000000000000000)
   \<and> (1000 - 200) * (1 / 3) * (999 / 1000) = (2664 / 10 :: rat)
   \<and> tknLimitWei (calculateLimits bigNumberOfDigits ''0'' ''1000'' ''200'' ''1'' ''3'')
     \<noteq> Num (2664 / 10)"
  by code_simp

text \<open>
  C10. The field \<^verbatim>\<open>bntLimitWei\<close> that \<^verbatim>\<open>calculateLimits\<close> returns is its argument
  \<^verbatim>\<open>mintedWei\<close>, whatever the limits and the reserve balances are.
\<close>

theorem calculateLimits_bntLimitWei:
  "bntLimitWei (calculateLimits BigNumber poolLimitWei defaultLimitWei mintedWei tkn bnt) = mintedWei"
  by (simp add: calculateLimits_def)

section \<open>Properties of the position aggregation\<close>

subsection \<open>The reduction, step by step\<close>

lemma reduce1_num_add: "xs \<noteq> [] \<Longrightarrow> reduce1 num_add xs = Inr (sumOf xs)"
  by (cases xs) (simp_all add: reduce1_def sumOf_def)

lemma newItem_members:
  assumes "v \<in> set arr"
  shows "newItem cmpString v (idOf v) (stake_poolId v) (stake_symbol v)
           (members arr (stake_poolId v) (stake_symbol v)) = Inr (created cmpString arr v)"
proof -
  have "v \<in> set (members arr (stake_poolId v) (stake_symbol v))"
    using assms by (simp add: members_def)
  then have ne: "members arr (stake_poolId v) (stake_symbol v) \<noteq> []"
    by auto
  show ?thesis
    unfolding newItem_def created_def
    by (simp add: reduce1_num_add ne sumFrom0_def Let_def)
qed

lemma reducer_step:
  assumes "v \<in> set arr"
  shows "reducer cmpString arr (obj, acc) v =
     (case obj (idOf v) of
        Some i \<Rightarrow> Inr (obj, acc[i := touch arr (acc ! i) v])
      | None \<Rightarrow> Inr (obj(idOf v \<mapsto> length acc), acc @ [touch arr (created cmpString arr v) v]))"
  using newItem_members [OF assms, of cmpString]
  by (simp add: reducer_def Let_def touch_def idOf_def members_def split: option.splits)

lemma reduceE_snoc:
  "reduceE f s (xs @ [x]) = (case reduceE f s xs of Inl e \<Rightarrow> Inl e | Inr s' \<Rightarrow> f s' x)"
  by (induction xs arbitrary: s) (auto split: sum.splits)

lemma firsts_snoc:
  "firsts (xs @ [v]) = (if idOf v \<in> idOf ` set xs then firsts xs else firsts xs @ [v])"
  by (induction xs) auto

lemma set_firsts_subset: "set (firsts xs) \<subseteq> set xs"
  by (induction xs) auto

lemma ids_firsts: "idOf ` set (firsts xs) = idOf ` set xs"
proof (induction xs)
  case Nil
  show ?case by simp
next
  case (Cons x xs)
  have "idOf ` set (filter (\<lambda>y. idOf y \<noteq> idOf x) (firsts xs)) = idOf ` set (firsts xs) - {idOf x}"
    by auto
  then have "idOf ` set (firsts (x # xs)) = insert (idOf x) (idOf ` set xs - {idOf x})"
    using Cons.IH by simp
  then show ?case by auto
qed

lemma distinct_ids_firsts: "distinct (map idOf (firsts xs))"
proof (induction xs)
  case Nil
  show ?case by simp
next
  case (Cons x xs)
  have "distinct (map idOf (filter (\<lambda>y. idOf y \<noteq> idOf x) (firsts xs)))"
    using Cons.IH by (simp add: distinct_map_filter)
  then show ?case by auto
qed

lemma groupAfter_snoc:
  "groupAfter cmpString arr (pre @ [v]) w =
     (if idOf v = idOf w then touch arr (groupAfter cmpString arr pre w) v
      else groupAfter cmpString arr pre w)"
  by (simp add: groupAfter_def sameId_def)

lemma groupAfter_empty: "idOf w \<notin> idOf ` set pre \<Longrightarrow> groupAfter cmpString arr pre w = created cmpString arr w"
proof -
  assume "idOf w \<notin> idOf ` set pre"
  then have "\<forall>x\<in>set pre. idOf x \<noteq> idOf w"
    by (metis imageI)
  then have "sameId pre (idOf w) = []"
    by (simp add: sameId_def filter_empty_conv)
  then show ?thesis by (simp add: groupAfter_def)
qed

lemma map_groupAfter_new:
  assumes "idOf v \<notin> idOf ` set pre"
  shows "map (groupAfter cmpString arr (pre @ [v])) (firsts pre)
     = map (groupAfter cmpString arr pre) (firsts pre)"
proof (rule map_cong [OF refl])
  fix w assume "w \<in> set (firsts pre)"
  then have "w \<in> set pre" using set_firsts_subset by blast
  then have "idOf v \<noteq> idOf w" using assms by auto
  then show "groupAfter cmpString arr (pre @ [v]) w = groupAfter cmpString arr pre w"
    by (simp add: groupAfter_snoc)
qed

lemma map_groupAfter_old:
  assumes "i < length (firsts pre)" and "idOf (firsts pre ! i) = idOf v"
  shows "map (groupAfter cmpString arr (pre @ [v])) (firsts pre)
     = (map (groupAfter cmpString arr pre) (firsts pre))
         [i := touch arr (map (groupAfter cmpString arr pre) (firsts pre) ! i) v]"
proof (rule nth_equalityI)
  show "length (map (groupAfter cmpString arr (pre @ [v])) (firsts pre))
      = length ((map (groupAfter cmpString arr pre) (firsts pre))
         [i := touch arr (map (groupAfter cmpString arr pre) (firsts pre) ! i) v])"
    by simp
next
  fix j assume "j < length (map (groupAfter cmpString arr (pre @ [v])) (firsts pre))"
  then have j: "j < length (firsts pre)" by simp
  show "map (groupAfter cmpString arr (pre @ [v])) (firsts pre) ! j
      = (map (groupAfter cmpString arr pre) (firsts pre))
         [i := touch arr (map (groupAfter cmpString arr pre) (firsts pre) ! i) v] ! j"
  proof (cases "j = i")
    case True
    then show ?thesis using assms by (simp add: groupAfter_snoc)
  next
    case False
    have "map idOf (firsts pre) ! j \<noteq> map idOf (firsts pre) ! i"
      using distinct_ids_firsts [of pre] j assms(1) False
      by (simp add: nth_eq_iff_index_eq del: nth_map)
    then have "idOf (firsts pre ! j) \<noteq> idOf v"
      using j assms by simp
    then show ?thesis using j False assms(1) by (simp add: groupAfter_snoc)
  qed
qed

lemma run_prefix:
  assumes "set pre \<subseteq> set arr"
  shows "\<exists>obj. reduceE (reducer cmpString arr) (Map.empty, []) pre
             = Inr (obj, map (groupAfter cmpString arr pre) (firsts pre))
           \<and> (\<forall>k. (obj k = None) = (k \<notin> idOf ` set pre))
           \<and> (\<forall>k i. obj k = Some i \<longrightarrow> i < length (firsts pre) \<and> idOf (firsts pre ! i) = k)"
  using assms
proof (induction pre rule: rev_induct)
  case Nil
  show ?case by simp
next
  case (snoc v pre)
  then have sub: "set pre \<subseteq> set arr" and v: "v \<in> set arr" by auto
  from snoc.IH [OF sub] obtain obj where
    run: "reduceE (reducer cmpString arr) (Map.empty, []) pre
            = Inr (obj, map (groupAfter cmpString arr pre) (firsts pre))"
    and dom: "\<forall>k. (obj k = None) = (k \<notin> idOf ` set pre)"
    and idx: "\<forall>k i. obj k = Some i \<longrightarrow> i < length (firsts pre) \<and> idOf (firsts pre ! i) = k"
    by blast
  show ?case
  proof (cases "obj (idOf v)")
    case None
    then have new: "idOf v \<notin> idOf ` set pre" using dom by simp
    let ?obj = "obj(idOf v \<mapsto> length (firsts pre))"
    have "reduceE (reducer cmpString arr) (Map.empty, []) (pre @ [v])
        = Inr (?obj, map (groupAfter cmpString arr pre) (firsts pre)
                 @ [touch arr (created cmpString arr v) v])"
      by (simp add: reduceE_snoc run reducer_step [OF v] None)
    moreover have "map (groupAfter cmpString arr (pre @ [v])) (firsts (pre @ [v]))
        = map (groupAfter cmpString arr pre) (firsts pre) @ [touch arr (created cmpString arr v) v]"
      using new
      by (simp add: firsts_snoc map_groupAfter_new groupAfter_snoc groupAfter_empty)
    moreover have "\<forall>k. (?obj k = None) = (k \<notin> idOf ` set (pre @ [v]))"
      using dom by auto
    moreover have "\<forall>k i. ?obj k = Some i \<longrightarrow>
        i < length (firsts (pre @ [v])) \<and> idOf (firsts (pre @ [v]) ! i) = k"
    proof (intro allI impI)
      fix k i assume a: "?obj k = Some i"
      show "i < length (firsts (pre @ [v])) \<and> idOf (firsts (pre @ [v]) ! i) = k"
      proof (cases "k = idOf v")
        case True
        then have "i = length (firsts pre)" using a by simp
        then show ?thesis using True new by (simp add: firsts_snoc)
      next
        case False
        then have "obj k = Some i" using a by simp
        then have "i < length (firsts pre) \<and> idOf (firsts pre ! i) = k" using idx by blast
        then show ?thesis using new by (simp add: firsts_snoc nth_append)
      qed
    qed
    ultimately show ?thesis by auto
  next
    case (Some i)
    then have i: "i < length (firsts pre)" and k: "idOf (firsts pre ! i) = idOf v"
      using idx by auto
    have old: "idOf v \<in> idOf ` set pre" using Some dom by (metis option.distinct(1))
    have "reduceE (reducer cmpString arr) (Map.empty, []) (pre @ [v])
        = Inr (obj, (map (groupAfter cmpString arr pre) (firsts pre))
                 [i := touch arr (map (groupAfter cmpString arr pre) (firsts pre) ! i) v])"
      by (simp add: reduceE_snoc run reducer_step [OF v] Some)
    moreover have "map (groupAfter cmpString arr (pre @ [v])) (firsts (pre @ [v]))
        = (map (groupAfter cmpString arr pre) (firsts pre))
            [i := touch arr (map (groupAfter cmpString arr pre) (firsts pre) ! i) v]"
      using old map_groupAfter_old [OF i k] by (simp add: firsts_snoc)
    moreover have "\<forall>k. (obj k = None) = (k \<notin> idOf ` set (pre @ [v]))"
      using dom old by auto
    moreover have "\<forall>k i. obj k = Some i \<longrightarrow>
        i < length (firsts (pre @ [v])) \<and> idOf (firsts (pre @ [v]) ! i) = k"
      using idx old by (simp add: firsts_snoc)
    ultimately show ?thesis by auto
  qed
qed

text \<open>
  On a non-empty input the function returns one item for the first element of each id, in
  input order: the created item, touched by every element of that id.
\<close>

lemma groupPositionsArray_groups:
  assumes "arr \<noteq> []"
  shows "groupPositionsArray cmpString arr = Inr (map (groupOf cmpString arr) (firsts arr))"
proof -
  obtain obj where "reduceE (reducer cmpString arr) (Map.empty, []) arr
      = Inr (obj, map (groupAfter cmpString arr arr) (firsts arr))"
    using run_prefix [of arr arr cmpString] by auto
  then show ?thesis
    using assms by (cases arr) (simp_all add: groupPositionsArray_def groupOf_def [abs_def])
qed

subsection \<open>The fields of a group\<close>

lemma foldl_touch_static:
  assumes "\<And>item x. f (touch arr item x) = f item"
  shows "f (foldl (touch arr) item xs) = f item"
  by (induction xs arbitrary: item) (simp_all add: assms)

lemma groupOf_static:
  assumes "\<And>item x. f (touch arr item x) = f item"
  shows "f (groupOf cmpString arr w) = f (created cmpString arr w)"
  unfolding groupOf_def groupAfter_def by (rule foldl_touch_static [OF assms])

lemma g_id_groupOf: "g_id (groupOf cmpString arr w) = idOf w"
  by (subst groupOf_static [of g_id]) (simp_all add: touch_def touchItem_def Let_def created_def buildItem_def)

lemma g_poolId_groupOf: "g_poolId (groupOf cmpString arr w) = stake_poolId w"
  by (subst groupOf_static [of g_poolId]) (simp_all add: touch_def touchItem_def Let_def created_def buildItem_def)

lemma g_symbol_groupOf: "g_symbol (groupOf cmpString arr w) = stake_symbol w"
  by (subst groupOf_static [of g_symbol]) (simp_all add: touch_def touchItem_def Let_def created_def buildItem_def)

lemma g_positionId_groupOf: "g_positionId (groupOf cmpString arr w) = id' w"
  by (subst groupOf_static [of g_positionId]) (simp_all add: touch_def touchItem_def Let_def created_def buildItem_def)

lemma g_stake_amount_groupOf:
  "g_stake_amount (groupOf cmpString arr w) =
     sumOf (map (\<lambda>x. orZero (stake_amount x)) (members arr (stake_poolId w) (stake_symbol w)))"
  by (subst groupOf_static [of g_stake_amount]) (simp_all add: touch_def touchItem_def Let_def created_def buildItem_def)


lemma g_fullyProtected_amount_groupOf:
  "g_fullyProtected_amount (groupOf cmpString arr w) =
     toNumber
       (if cmpString (stake_symbol w) ''BNT''
        then bn_plus (pendingReserveReward w)
               (bigNumberOfNumber
                  (sumOf (map (\<lambda>x. amountOrZero (fullyProtected x))
                     (members arr (stake_poolId w) (stake_symbol w)))))
        else bn_plus
               (bn_dividedBy
                  (bn_times (pendingReserveReward w) (bigNumberOfNumber (bntTokenPrice w)))
                  (bigNumberOfNumber (reserveTokenPrice w)))
               (bigNumberOfNumber
                  (sumOf (map (\<lambda>x. amountOrZero (fullyProtected x))
                     (members arr (stake_poolId w) (stake_symbol w))))))"
  by (subst groupOf_static [of g_fullyProtected_amount])
    (simp_all add: touch_def touchItem_def Let_def created_def buildItem_def)

lemma g_roi_groupOf:
  "g_roi (groupOf cmpString arr w) =
     num_div (num_sub (g_fullyProtected_amount (groupOf cmpString arr w))
                (g_stake_amount (groupOf cmpString arr w)))
       (g_stake_amount (groupOf cmpString arr w))"
proof -
  have "g_roi (created cmpString arr w) =
     num_div (num_sub (g_fullyProtected_amount (created cmpString arr w))
                (g_stake_amount (created cmpString arr w)))
       (g_stake_amount (created cmpString arr w))"
    by (simp add: created_def buildItem_def Let_def)
  moreover have "g_roi (groupOf cmpString arr w) = g_roi (created cmpString arr w)"
    by (rule groupOf_static) (simp add: touch_def touchItem_def Let_def)
  moreover have "g_fullyProtected_amount (groupOf cmpString arr w)
      = g_fullyProtected_amount (created cmpString arr w)"
    by (rule groupOf_static) (simp add: touch_def touchItem_def Let_def)
  moreover have "g_stake_amount (groupOf cmpString arr w) = g_stake_amount (created cmpString arr w)"
    by (rule groupOf_static) (simp add: touch_def touchItem_def Let_def)
  ultimately show ?thesis by simp
qed

lemma num_div_zero: "num_div a (Num 0) \<in> {NaN, PInf, NInf}"
  by (cases a) (simp_all add: num_div_def toNumber_def inf_signed_def)

lemma find_firsts: "w \<in> set (firsts arr) \<Longrightarrow> find (\<lambda>x. idOf x = idOf w) arr = Some w"
  by (induction arr) auto

lemma firsts_nonempty: "arr \<noteq> [] \<Longrightarrow> firsts arr \<noteq> []"
  by (cases arr) simp_all

lemma idsUnambiguousD:
  "idsUnambiguous arr \<Longrightarrow> x \<in> set arr \<Longrightarrow> y \<in> set arr \<Longrightarrow> idOf x = idOf y
     \<Longrightarrow> stake_poolId x = stake_poolId y \<and> stake_symbol x = stake_symbol y"
  unfolding idsUnambiguous_def list_all_iff by metis

lemma filter_distinct_key:
  assumes "distinct (map f xs)" and "w \<in> set xs" and "\<And>x. x \<in> set xs \<Longrightarrow> P x = (f x = f w)"
  shows "filter P xs = [w]"
  using assms
proof (induction xs)
  case Nil
  then show ?case by simp
next
  case (Cons x xs)
  show ?case
  proof (cases "x = w")
    case True
    have "\<forall>y\<in>set xs. \<not> P y"
    proof
      fix y assume y: "y \<in> set xs"
      have "f w \<notin> f ` set xs" using Cons.prems(1) True by simp
      then have "f y \<noteq> f w" using y by (metis imageI)
      then show "\<not> P y" using Cons.prems(3) [of y] y by simp
    qed
    then have "filter P xs = []" by (simp add: filter_empty_conv)
    moreover have "P x" using Cons.prems(3) [of x] True by simp
    ultimately show ?thesis using True by simp
  next
    case False
    then have w: "w \<in> set xs" using Cons.prems(2) by simp
    have "f x \<notin> f ` set xs" using Cons.prems(1) by simp
    then have "f x \<noteq> f w" using w by (metis imageI)
    then have "\<not> P x" using Cons.prems(3) [of x] by simp
    moreover have "filter P xs = [w]"
      using Cons.IH Cons.prems w by simp
    ultimately show ?thesis by simp
  qed
qed

subsection \<open>The fields that later elements change\<close>
























subsection \<open>Concrete runs\<close>

lemma scenario_run:
  "groupPositionsArray compareString scenario =
     Inr [\<lparr>g_collapsedData =
             [rawPosition ''2'' ''P1'' ''BNT'' 50 55 2 20, rawPosition ''1'' ''P1'' ''BNT'' 100 110 5 10],
           g_id = ''P1-BNT'', g_positionId = ''1'', g_poolId = ''P1'', g_symbol = ''BNT'',
           g_apr = (), g_insuranceStart = 10, g_coverageDecPercent = Num 1, g_fullCoverage = Num 0,
           g_pendingReserveReward = Num 5, g_stake_amount = Num 150, g_stake_usdValue = Num 150,
           g_stake_unixTime = 10, g_fullyProtected_amount = Num 170,
           g_fullyProtected_usdValue = Num 170, g_protectedAmount_amount = Num 5,
           g_protectedAmount_usdValue = Num 5,
           g_roi = Num (4803839602528529 / 36028797018963968), g_fees = Num 0\<rparr>]"
  by code_simp


lemma zeroStake_run:
  "map_sum id (map g_stake_amount) (groupPositionsArray compareString zeroStake) = Inr [Num 0] \<and>
   map_sum id (map g_fullyProtected_amount) (groupPositionsArray compareString zeroStake) = Inr [Num 10] \<and>
   map_sum id (map g_roi) (groupPositionsArray compareString zeroStake) = Inr [PInf]"
  by code_simp

lemma sharedId_run:
  "map_sum id (map g_id) (groupPositionsArray compareString sharedId) = Inr [''a-b-c''] \<and>
   map_sum id (map g_poolId) (groupPositionsArray compareString sharedId) = Inr [''a-b''] \<and>
   map_sum id (map g_symbol) (groupPositionsArray compareString sharedId) = Inr [''c''] \<and>
   map_sum id (map g_stake_amount) (groupPositionsArray compareString sharedId) = Inr [Num 1]"
  by code_simp



lemma bigStakes_run:
  "map_sum id (map g_stake_amount) (groupPositionsArray compareString bigStakes)
     = Inr [Num 9007199254740992] \<and>
   map_sum id (map g_stake_amount) (groupPositionsArray compareString bigStakesReversed)
     = Inr [Num 9007199254740994] \<and>
   map_sum id (map g_fees) (groupPositionsArray compareString bigStakes)
     = Inr [Num 9007199254740992] \<and>
   map_sum id (map g_fees) (groupPositionsArray compareString bigStakesReversed)
     = Inr [Num 9007199254740994]"
  by code_simp


lemma scenario_unambiguous: "idsUnambiguous scenario"
  by (simp add: scenario_def idsUnambiguous_def idOf_def rawPosition_def)

subsection \<open>The claims\<close>

text \<open>
  C9. \<^verbatim>\<open>groupPositionsArray\<close> needs a non-empty input: on the empty list it fails with a
  \<^verbatim>\<open>TypeError\<close>, raised by the read of \<^verbatim>\<open>arr[0].pendingReserveReward\<close>, and returns no empty
  list of groups. On a non-empty input this read is safe, and the function returns a list of
  groups, which is not empty.
\<close>

theorem groupPositionsArray_nonempty_input:
  "groupPositionsArray cmpString [] = Inl TypeError \<and>
   (arr \<noteq> [] \<longrightarrow> (\<exists>gs. groupPositionsArray cmpString arr = Inr gs \<and> gs \<noteq> []))"
  by (simp add: groupPositionsArray_groups firsts_nonempty) (simp add: groupPositionsArray_def)

theorem groupPositionsArray_nonempty_input_witness:
  "scenario \<noteq> [] \<and> map_sum id length (groupPositionsArray compareString scenario) = Inr 1"
proof -
  have ne: "scenario \<noteq> []" by (simp add: scenario_def)
  have "scenario \<noteq> [] \<longrightarrow>
      (\<exists>gs. groupPositionsArray compareString scenario = Inr gs \<and> gs \<noteq> [])"
    using groupPositionsArray_nonempty_input [of compareString scenario] by (rule conjunct2)
  then obtain gs where "groupPositionsArray compareString scenario = Inr gs" and "gs \<noteq> []"
    using ne by blast
  then show ?thesis using ne scenario_run by auto
qed

text \<open>
  C4. For every group that \<^verbatim>\<open>groupPositionsArray\<close> returns, \<^verbatim>\<open>roi\<close> is the reward-adjusted
  fully protected amount minus the summed stake, divided by the summed stake, in the
  arithmetic of \<^verbatim>\<open>number\<close>. There is no guard: when the summed stake is zero, \<^verbatim>\<open>roi\<close> is
  \<^verbatim>\<open>NaN\<close>, \<^verbatim>\<open>Infinity\<close> or \<^verbatim>\<open>-Infinity\<close>, and the function returns it as any other value.
\<close>

theorem groupPositionsArray_roi:
  "arr \<noteq> [] \<longrightarrow>
     (\<exists>gs. groupPositionsArray cmpString arr = Inr gs \<and>
        (\<forall>g\<in>set gs.
           g_roi g = num_div (num_sub (g_fullyProtected_amount g) (g_stake_amount g)) (g_stake_amount g)
           \<and> (g_stake_amount g = Num 0 \<longrightarrow> g_roi g \<in> {NaN, PInf, NInf})))"
proof
  assume ne: "arr \<noteq> []"
  have "\<forall>g\<in>set (map (groupOf cmpString arr) (firsts arr)).
           g_roi g = num_div (num_sub (g_fullyProtected_amount g) (g_stake_amount g)) (g_stake_amount g)
           \<and> (g_stake_amount g = Num 0 \<longrightarrow> g_roi g \<in> {NaN, PInf, NInf})"
  proof
    fix g assume "g \<in> set (map (groupOf cmpString arr) (firsts arr))"
    then obtain w where g: "g = groupOf cmpString arr w" by auto
    have roi: "g_roi g = num_div (num_sub (g_fullyProtected_amount g) (g_stake_amount g)) (g_stake_amount g)"
      unfolding g by (rule g_roi_groupOf)
    moreover have "g_stake_amount g = Num 0 \<longrightarrow> g_roi g \<in> {NaN, PInf, NInf}"
    proof
      assume z: "g_stake_amount g = Num 0"
      show "g_roi g \<in> {NaN, PInf, NInf}"
        unfolding roi z by (rule num_div_zero)
    qed
    ultimately show "g_roi g = num_div (num_sub (g_fullyProtected_amount g) (g_stake_amount g)) (g_stake_amount g)
           \<and> (g_stake_amount g = Num 0 \<longrightarrow> g_roi g \<in> {NaN, PInf, NInf})"
      by blast
  qed
  then show "\<exists>gs. groupPositionsArray cmpString arr = Inr gs \<and>
        (\<forall>g\<in>set gs.
           g_roi g = num_div (num_sub (g_fullyProtected_amount g) (g_stake_amount g)) (g_stake_amount g)
           \<and> (g_stake_amount g = Num 0 \<longrightarrow> g_roi g \<in> {NaN, PInf, NInf}))"
    using groupPositionsArray_groups [OF ne, of cmpString] by blast
qed

theorem groupPositionsArray_roi_witness:
  "zeroStake \<noteq> [] \<and>
   map_sum id (map g_stake_amount) (groupPositionsArray compareString zeroStake) = Inr [Num 0] \<and>
   map_sum id (map g_roi) (groupPositionsArray compareString zeroStake) = Inr [PInf] \<and>
   PInf = num_div (num_sub (Num 10) (Num 0)) (Num 0)"
proof -
  have ne: "zeroStake \<noteq> []" by (simp add: zeroStake_def)
  obtain gs where gs: "groupPositionsArray compareString zeroStake = Inr gs"
    and all: "\<forall>g\<in>set gs.
           g_roi g = num_div (num_sub (g_fullyProtected_amount g) (g_stake_amount g)) (g_stake_amount g)
           \<and> (g_stake_amount g = Num 0 \<longrightarrow> g_roi g \<in> {NaN, PInf, NInf})"
    using groupPositionsArray_roi [of zeroStake compareString] ne by blast
  from zeroStake_run gs obtain g where g: "gs = [g]"
    by auto
  then have "g_roi g = num_div (num_sub (g_fullyProtected_amount g) (g_stake_amount g)) (g_stake_amount g)"
    using all by simp
  moreover have "g_stake_amount g = Num 0" "g_fullyProtected_amount g = Num 10" "g_roi g = PInf"
    using zeroStake_run gs g by simp_all
  ultimately show ?thesis using ne zeroStake_run by simp
qed

text \<open>
  C4, as stated, fails on one position with stake 0 and a fully protected amount of 10: the
  function returns a group whose \<^verbatim>\<open>roi\<close> is \<^verbatim>\<open>Infinity\<close>, not an error.
\<close>

theorem groupPositionsArray_roi_counterexample:
  "map_sum id (map g_stake_amount) (groupPositionsArray compareString zeroStake) = Inr [Num 0] \<and>
   map_sum id (map g_roi) (groupPositionsArray compareString zeroStake) = Inr [PInf]"
  using zeroStake_run by simp

text \<open>
  C1. For a group whose symbol is \<^verbatim>\<open>BNT\<close>, the reported fully protected amount is the
  pending reward of one member, the first element of the input with the id of the group,
  plus the sum of the members' fully protected amounts: the sum is taken from left to right
  in the arithmetic of \<^verbatim>\<open>number\<close>, the reward is added to it as a \<^verbatim>\<open>BigNumber\<close>, and the result
  is turned into a \<^verbatim>\<open>number\<close>. For the two positions of pool \<^verbatim>\<open>P1\<close> and symbol \<^verbatim>\<open>BNT\<close> with
  stakes 100 and 50, fully protected amounts 110 and 55 and pending rewards 5 and 2, the
  function returns one group with \<^verbatim>\<open>stake.amount\<close> 150, \<^verbatim>\<open>fullyProtected.amount\<close> 170 and two
  entries in \<^verbatim>\<open>collapsedData\<close>.
\<close>

theorem groupPositionsArray_bnt_reward:
  "(arr \<noteq> [] \<longrightarrow>
     (\<exists>gs. groupPositionsArray cmpString arr = Inr gs \<and>
        (\<forall>g\<in>set gs. cmpString (g_symbol g) ''BNT'' \<longrightarrow>
           (\<exists>v. find (\<lambda>x. idOf x = g_id g) arr = Some v \<and>
                g_fullyProtected_amount g =
                  toNumber
                    (bn_plus (pendingReserveReward v)
                       (bigNumberOfNumber
                          (sumOf (map (\<lambda>x. amountOrZero (fullyProtected x))
                             (members arr (g_poolId g) (g_symbol g))))))))))
   \<and> map_sum id length (groupPositionsArray compareString scenario) = Inr 1
   \<and> map_sum id (map g_stake_amount) (groupPositionsArray compareString scenario) = Inr [Num 150]
   \<and> map_sum id (map g_fullyProtected_amount) (groupPositionsArray compareString scenario)
       = Inr [Num 170]
   \<and> map_sum id (map (\<lambda>g. length (g_collapsedData g))) (groupPositionsArray compareString scenario)
       = Inr [2]"
proof (intro conjI impI)
  assume ne: "arr \<noteq> []"
  have "\<forall>g\<in>set (map (groupOf cmpString arr) (firsts arr)). cmpString (g_symbol g) ''BNT'' \<longrightarrow>
           (\<exists>v. find (\<lambda>x. idOf x = g_id g) arr = Some v \<and>
                g_fullyProtected_amount g =
                  toNumber
                    (bn_plus (pendingReserveReward v)
                       (bigNumberOfNumber
                          (sumOf (map (\<lambda>x. amountOrZero (fullyProtected x))
                             (members arr (g_poolId g) (g_symbol g)))))))"
  proof (intro ballI impI)
    fix g assume "g \<in> set (map (groupOf cmpString arr) (firsts arr))"
      and bnt: "cmpString (g_symbol g) ''BNT''"
    then obtain w where w: "w \<in> set (firsts arr)" and g: "g = groupOf cmpString arr w" by auto
    have "find (\<lambda>x. idOf x = g_id g) arr = Some w"
      using find_firsts [OF w] by (simp add: g g_id_groupOf)
    moreover have "g_fullyProtected_amount g =
        toNumber
          (bn_plus (pendingReserveReward w)
             (bigNumberOfNumber
                (sumOf (map (\<lambda>x. amountOrZero (fullyProtected x))
                   (members arr (g_poolId g) (g_symbol g))))))"
      using bnt unfolding g
      by (simp add: g_fullyProtected_amount_groupOf g_symbol_groupOf g_poolId_groupOf)
    ultimately show "\<exists>v. find (\<lambda>x. idOf x = g_id g) arr = Some v \<and>
                g_fullyProtected_amount g =
                  toNumber
                    (bn_plus (pendingReserveReward v)
                       (bigNumberOfNumber
                          (sumOf (map (\<lambda>x. amountOrZero (fullyProtected x))
                             (members arr (g_poolId g) (g_symbol g))))))"
      by blast
  qed
  then show "\<exists>gs. groupPositionsArray cmpString arr = Inr gs \<and>
        (\<forall>g\<in>set gs. cmpString (g_symbol g) ''BNT'' \<longrightarrow>
           (\<exists>v. find (\<lambda>x. idOf x = g_id g) arr = Some v \<and>
                g_fullyProtected_amount g =
                  toNumber
                    (bn_plus (pendingReserveReward v)
                       (bigNumberOfNumber
                          (sumOf (map (\<lambda>x. amountOrZero (fullyProtected x))
                             (members arr (g_poolId g) (g_symbol g))))))))"
    using groupPositionsArray_groups [OF ne, of cmpString] by blast
qed (simp_all add: scenario_run)

theorem groupPositionsArray_bnt_reward_witness:
  "scenario \<noteq> [] \<and> compareString ''BNT'' ''BNT'' \<and>
   find (\<lambda>x. idOf x = ''P1-BNT'') scenario = Some (rawPosition ''1'' ''P1'' ''BNT'' 100 110 5 10) \<and>
   map_sum id (map g_fullyProtected_amount) (groupPositionsArray compareString scenario)
     = Inr [toNumber (bn_plus (Num 5) (bigNumberOfNumber (sumOf [Num 110, Num 55])))]"
proof -
  have ne: "scenario \<noteq> []" by (simp add: scenario_def)
  have f: "find (\<lambda>x. idOf x = ''P1-BNT'') scenario = Some (rawPosition ''1'' ''P1'' ''BNT'' 100 110 5 10)"
    by (simp add: scenario_def idOf_def rawPosition_def)
  have m: "map (\<lambda>x. amountOrZero (fullyProtected x)) (members scenario ''P1'' ''BNT'') = [Num 110, Num 55]"
    by (simp add: scenario_def members_def rawPosition_def amountOrZero_def)
  obtain gs where gs: "groupPositionsArray compareString scenario = Inr gs"
    and all: "\<forall>g\<in>set gs. compareString (g_symbol g) ''BNT'' \<longrightarrow>
           (\<exists>v. find (\<lambda>x. idOf x = g_id g) scenario = Some v \<and>
                g_fullyProtected_amount g =
                  toNumber
                    (bn_plus (pendingReserveReward v)
                       (bigNumberOfNumber
                          (sumOf (map (\<lambda>x. amountOrZero (fullyProtected x))
                             (members scenario (g_poolId g) (g_symbol g)))))))"
    using groupPositionsArray_bnt_reward [of scenario compareString] ne by blast
  from gs scenario_run obtain g where g: "gs = [g]" and k: "g_id g = ''P1-BNT''"
    "g_poolId g = ''P1''" "g_symbol g = ''BNT''"
    by auto
  have "compareString (g_symbol g) ''BNT''" by (simp add: k compareString_def)
  then obtain v where fv: "find (\<lambda>x. idOf x = g_id g) scenario = Some v"
    and fp: "g_fullyProtected_amount g =
           toNumber
             (bn_plus (pendingReserveReward v)
                (bigNumberOfNumber
                   (sumOf (map (\<lambda>x. amountOrZero (fullyProtected x))
                      (members scenario (g_poolId g) (g_symbol g))))))"
    using all g by auto
  have veq: "v = rawPosition ''1'' ''P1'' ''BNT'' 100 110 5 10"
    using fv f k by simp
  have "pendingReserveReward v = Num 5"
    unfolding veq by (simp add: rawPosition_def)
  then have "g_fullyProtected_amount g
      = toNumber (bn_plus (Num 5) (bigNumberOfNumber (sumOf [Num 110, Num 55])))"
    using fp m k by simp
  then show ?thesis
    using ne f gs g by (simp add: compareString_def)
qed

text \<open>
  C1, as stated, fails on its own scenario: the amount is 170 (110 + 55 + 5), not 172.
\<close>

theorem groupPositionsArray_bnt_reward_counterexample:
  "map_sum id (map g_fullyProtected_amount) (groupPositionsArray compareString scenario)
     = Inr [Num 170]
   \<and> map_sum id (map g_fullyProtected_amount) (groupPositionsArray compareString scenario)
     \<noteq> Inr [Num 172]"
  by (simp add: scenario_run)

text \<open>
  C2. For every non-empty, unambiguous input and every pool and symbol of one of its
  elements, \<^verbatim>\<open>groupPositionsArray\<close> returns exactly one group with that pool and symbol; its
  id is \<^verbatim>\<open>poolId-symbol\<close> and its \<^verbatim>\<open>stake.amount\<close> is the sum of \<^verbatim>\<open>stake.amount || 0\<close> over
  the elements of the input with that pool and symbol, taken from left to right in the
  arithmetic of \<^verbatim>\<open>number\<close>, where every addition rounds to a double.
\<close>

theorem groupPositionsArray_sum_stake:
  "arr \<noteq> [] \<and> idsUnambiguous arr \<and> v \<in> set arr \<longrightarrow>
     (\<exists>gs g. groupPositionsArray cmpString arr = Inr gs \<and>
        filter (\<lambda>g. g_poolId g = stake_poolId v \<and> g_symbol g = stake_symbol v) gs = [g] \<and>
        g_id g = idOf v \<and>
        g_stake_amount g =
          sumOf (map (\<lambda>x. orZero (stake_amount x))
             (members arr (stake_poolId v) (stake_symbol v))))"
proof
  assume a: "arr \<noteq> [] \<and> idsUnambiguous arr \<and> v \<in> set arr"
  then have ne: "arr \<noteq> []" and nc: "idsUnambiguous arr" and v: "v \<in> set arr" by auto
  let ?P = "\<lambda>g. g_poolId g = stake_poolId v \<and> g_symbol g = stake_symbol v"
  have "idOf v \<in> idOf ` set (firsts arr)" using v by (simp add: ids_firsts)
  then obtain w where w: "w \<in> set (firsts arr)" and wid: "idOf w = idOf v" by auto
  have warr: "w \<in> set arr" using w set_firsts_subset by blast
  have same: "stake_poolId w = stake_poolId v \<and> stake_symbol w = stake_symbol v"
    using idsUnambiguousD [OF nc warr v wid] .
  have key: "\<And>x. x \<in> set (firsts arr) \<Longrightarrow>
      (?P \<circ> groupOf cmpString arr) x = (idOf x = idOf w)"
  proof -
    fix x assume x: "x \<in> set (firsts arr)"
    then have xarr: "x \<in> set arr" using set_firsts_subset by blast
    show "(?P \<circ> groupOf cmpString arr) x = (idOf x = idOf w)"
    proof
      assume "(?P \<circ> groupOf cmpString arr) x"
      then show "idOf x = idOf w"
        using wid by (simp add: g_poolId_groupOf g_symbol_groupOf idOf_def)
    next
      assume "idOf x = idOf w"
      then show "(?P \<circ> groupOf cmpString arr) x"
        using idsUnambiguousD [OF nc xarr warr] same
        by (simp add: g_poolId_groupOf g_symbol_groupOf)
    qed
  qed
  have "filter (?P \<circ> groupOf cmpString arr) (firsts arr) = [w]"
    by (rule filter_distinct_key [OF distinct_ids_firsts w key])
  then have "filter ?P (map (groupOf cmpString arr) (firsts arr)) = [groupOf cmpString arr w]"
    by (simp add: filter_map)
  moreover have "g_id (groupOf cmpString arr w) = idOf v"
    by (simp add: g_id_groupOf wid)
  moreover have "g_stake_amount (groupOf cmpString arr w) =
      sumOf (map (\<lambda>x. orZero (stake_amount x)) (members arr (stake_poolId v) (stake_symbol v)))"
    by (simp add: g_stake_amount_groupOf same)
  ultimately show "\<exists>gs g. groupPositionsArray cmpString arr = Inr gs \<and>
        filter ?P gs = [g] \<and> g_id g = idOf v \<and>
        g_stake_amount g =
          sumOf (map (\<lambda>x. orZero (stake_amount x))
             (members arr (stake_poolId v) (stake_symbol v)))"
    using groupPositionsArray_groups [OF ne, of cmpString] by blast
qed

theorem groupPositionsArray_sum_stake_witness:
  "scenario \<noteq> [] \<and> idsUnambiguous scenario \<and>
   rawPosition ''2'' ''P1'' ''BNT'' 50 55 2 20 \<in> set scenario \<and>
   map_sum id (map g_stake_amount) (groupPositionsArray compareString scenario)
     = Inr [sumOf [Num 100, Num 50]]"
proof -
  let ?v = "rawPosition ''2'' ''P1'' ''BNT'' 50 55 2 20"
  have ne: "scenario \<noteq> []" by (simp add: scenario_def)
  have v: "?v \<in> set scenario" by (simp add: scenario_def)
  have m: "map (\<lambda>x. orZero (stake_amount x)) (members scenario (stake_poolId ?v) (stake_symbol ?v))
      = [Num 100, Num 50]"
    by (simp add: scenario_def members_def rawPosition_def orZero_def)
  obtain gs g where gs: "groupPositionsArray compareString scenario = Inr gs"
    and f: "filter (\<lambda>g. g_poolId g = stake_poolId ?v \<and> g_symbol g = stake_symbol ?v) gs = [g]"
    and s: "g_stake_amount g =
          sumOf (map (\<lambda>x. orZero (stake_amount x))
             (members scenario (stake_poolId ?v) (stake_symbol ?v)))"
    using groupPositionsArray_sum_stake [of scenario ?v compareString] ne scenario_unambiguous v
    by blast
  from gs scenario_run have "length gs = 1" by auto
  then have "gs = [g]" using f
    by (cases gs) (auto split: if_splits)
  then show ?thesis using ne scenario_unambiguous v gs s m by simp
qed

text \<open>
  C2, as stated, fails when two pairs share an id: with pool \<^verbatim>\<open>a-b\<close>, symbol \<^verbatim>\<open>c\<close>, stake 1
  and pool \<^verbatim>\<open>a\<close>, symbol \<^verbatim>\<open>b-c\<close>, stake 2, the only group is the one of \<^verbatim>\<open>a-b\<close> and \<^verbatim>\<open>c\<close>,
  with stake 1. It also fails as a sum of real numbers: the stakes 9007199254740992, 1 and 1
  of one group give 9007199254740992.
\<close>

theorem groupPositionsArray_sum_stake_counterexample:
  "map stake_poolId sharedId = [''a-b'', ''a''] \<and> map stake_symbol sharedId = [''c'', ''b-c''] \<and>
   map_sum id (map g_id) (groupPositionsArray compareString sharedId) = Inr [''a-b-c''] \<and>
   map_sum id (map g_poolId) (groupPositionsArray compareString sharedId) = Inr [''a-b''] \<and>
   map_sum id (map g_symbol) (groupPositionsArray compareString sharedId) = Inr [''c''] \<and>
   map_sum id (map g_stake_amount) (groupPositionsArray compareString sharedId) = Inr [Num 1] \<and>
   map stake_amount bigStakes = [Num 9007199254740992, Num 1, Num 1] \<and>
   map_sum id (map g_stake_amount) (groupPositionsArray compareString bigStakes)
     = Inr [Num 9007199254740992]"
  using sharedId_run bigStakes_run by (simp add: sharedId_def bigStakes_def rawPosition_def)






section \<open>Properties of the stream stages\<close>

lemma scan_filter_pluck:
  "map newData (filter (\<lambda>dataCache. 0 < length (newData dataCache))
     (scan (\<lambda>acc item. let difference = differenceWith eq item (allEmissions acc)
              in \<lparr>allEmissions = allEmissions acc @ difference, newData = difference\<rparr>)
        \<lparr>allEmissions = seen, newData = nd\<rparr> source))
   = accumulator_spec eq seen source"
  by (induction source arbitrary: seen nd) (simp_all add: differenceWith_def Let_def)

text \<open>
  C6. \<^verbatim>\<open>distinctArrayItem\<close> emits its initial value and then, for each batch, the elements
  of the batch that the comparator (deep equality when none is given) matches with nothing
  accumulated so far; it appends them to the accumulated elements and emits nothing for a
  batch without new elements. Fed \<open>[a, b]\<close> and then \<open>[a, b, c]\<close>, with \<open>a\<close>, \<open>b\<close>, \<open>c\<close>
  distinct and nothing to start with, it emits \<open>[a, b]\<close> and then \<open>[c]\<close> after the initial
  emission.
\<close>

theorem distinctArrayItem_deltas:
  "distinctArrayItem initialValue comparator source =
     initialValue # accumulator_spec (case comparator of Some c \<Rightarrow> c | None \<Rightarrow> (=)) initialValue source
   \<and> (distinct [a, b, c] \<longrightarrow>
        distinctArrayItem [] None [[a, b], [a, b, c]] = [[], [a, b], [c]])"
proof -
  have eq: "(case comparator of Some c \<Rightarrow> c | None \<Rightarrow> isEqual)
      = (case comparator of Some c \<Rightarrow> c | None \<Rightarrow> (=))"
    by (auto simp: isEqual_def fun_eq_iff split: option.splits)
  have gen: "\<And>init cmp src. distinctArrayItem init cmp src =
     init # accumulator_spec (case cmp of Some c \<Rightarrow> c | None \<Rightarrow> isEqual) init src"
    unfolding distinctArrayItem_def startWith_def pluck_def
    by (simp only: scan_filter_pluck)
  show ?thesis
    unfolding gen eq [symmetric]
    by (auto simp: isEqual_def)
qed

theorem distinctArrayItem_deltas_witness:
  "distinct [''a'', ''b'', ''c''] \<and>
   distinctArrayItem [] None [[''a'', ''b''], [''a'', ''b'', ''c'']] = [[], [''a'', ''b''], [''c'']]"
proof -
  have d: "distinct [''a'', ''b'', ''c'']" by simp
  have "distinct [''a'', ''b'', ''c''] \<longrightarrow>
      distinctArrayItem [] None [[''a'', ''b''], [''a'', ''b'', ''c'']] = [[], [''a'', ''b''], [''c'']]"
    using distinctArrayItem_deltas [of "[]" None "[]" "''a''" "''b''" "''c''"] by (rule conjunct2)
  then show ?thesis using d by blast
qed

text \<open>
  With a value \<open>c\<close> in the cache, \<^verbatim>\<open>optimisticContract\<close> emits \<open>c\<close> and then the live values
  that \<^verbatim>\<open>distinctUntilChanged\<close> lets through, and it calls \<^verbatim>\<open>setItem\<close> for the emitted values
  that differ from \<open>c\<close>, and for no other.
\<close>

lemma tap_cached_calls:
  "setItemCalls (snd (tap (\<lambda>data. let isSame = (c = data)
                                       in if \<not> isSame then setItem key data else (\<lambda>s. s)) out s))
     = setItemCalls s @ map (Pair key) (filter (\<lambda>d. d \<noteq> c) out)"
  by (induction out arbitrary: s) (auto simp: tap_def setItem_def Let_def)

lemma optimisticContract_cached:
  assumes "getItem ls key = Some c" and "c \<noteq> []"
  shows "fst (optimisticContract cmpString key source ls) = c # distinctFrom cmpString (Some c) source"
    and "setItemCalls (snd (optimisticContract cmpString key source ls))
           = setItemCalls ls
             @ map (Pair key) (filter (\<lambda>d. d \<noteq> c) (distinctFrom cmpString (Some c) source))"
proof -
  obtain x xs where c: "c = x # xs" using assms(2) by (cases c) auto
  show "fst (optimisticContract cmpString key source ls) = c # distinctFrom cmpString (Some c) source"
    using assms(1) unfolding c
    by (simp add: optimisticContract_def Let_def tap_def distinctUntilChanged_def startWith_def)
  have "setItemCalls (snd (optimisticContract cmpString key source ls))
      = setItemCalls ls @ map (Pair key) (filter (\<lambda>d. d \<noteq> c) (c # distinctFrom cmpString (Some c) source))"
    using assms(1) tap_cached_calls [of c key "c # distinctFrom cmpString (Some c) source" ls]
    unfolding c
    by (simp add: optimisticContract_def Let_def distinctUntilChanged_def startWith_def)
  then show "setItemCalls (snd (optimisticContract cmpString key source ls))
           = setItemCalls ls
             @ map (Pair key) (filter (\<lambda>d. d \<noteq> c) (distinctFrom cmpString (Some c) source))"
    by simp
qed

text \<open>
  C5. With \<^verbatim>\<open>"0xOLD"\<close> persisted and a live stream of \<^verbatim>\<open>"0xOLD"\<close> and then \<^verbatim>\<open>"0xNEW"\<close>,
  \<^verbatim>\<open>optimisticContract\<close> emits \<^verbatim>\<open>"0xOLD"\<close> once and \<^verbatim>\<open>"0xNEW"\<close> once and writes only
  \<^verbatim>\<open>"0xNEW"\<close>. With a live stream of \<^verbatim>\<open>"0xNEW"\<close> and then \<^verbatim>\<open>"0xOLD"\<close> it emits \<^verbatim>\<open>"0xOLD"\<close>,
  \<^verbatim>\<open>"0xNEW"\<close>, \<^verbatim>\<open>"0xOLD"\<close>, but the second change is not written: the guard compares with
  the value read at the start, and the storage keeps \<^verbatim>\<open>"0xNEW"\<close>.
\<close>

theorem optimisticContract_runs:
  "fst (optimisticContract compareString ''K'' [''0xOLD'', ''0xNEW''] (storageWith ''K'' ''0xOLD''))
     = [''0xOLD'', ''0xNEW'']
   \<and> setItemCalls
        (snd (optimisticContract compareString ''K'' [''0xOLD'', ''0xNEW'']
           (storageWith ''K'' ''0xOLD'')))
     = [(''K'', ''0xNEW'')]
   \<and> fst (optimisticContract compareString ''K'' [''0xNEW'', ''0xOLD''] (storageWith ''K'' ''0xOLD''))
     = [''0xOLD'', ''0xNEW'', ''0xOLD'']
   \<and> setItemCalls
        (snd (optimisticContract compareString ''K'' [''0xNEW'', ''0xOLD'']
           (storageWith ''K'' ''0xOLD'')))
     = [(''K'', ''0xNEW'')]
   \<and> getItem
        (snd (optimisticContract compareString ''K'' [''0xNEW'', ''0xOLD'']
           (storageWith ''K'' ''0xOLD'')))
        ''K''
     = Some ''0xNEW''"
  by (simp add: optimisticContract_def storageWith_def getItem_def setItem_def tap_def
      distinctUntilChanged_def startWith_def compareString_def Let_def)

end
